theory Spec2Isabelle
  imports Main "HOL-Library.Word"
begin

section \<open>JavaScript strings\<close>

text \<open>
  A JavaScript string is a sequence of UTF-16 code units.  ASCII literals of the source
  are written with \<open>js\<close>.
\<close>

type_synonym code_unit = "16 word"
type_synonym jsstring = "code_unit list"

definition js :: "string \<Rightarrow> jsstring" where
  "js s = map (\<lambda>c. of_nat (of_char c)) s"

text \<open>
  \<open>String.prototype.trim\<close> removes the WhiteSpace and LineTerminator code points of
  ECMAScript from both ends.
\<close>

definition isWhiteSpace :: "code_unit \<Rightarrow> bool" where
  "isWhiteSpace c \<longleftrightarrow>
     c = 0x09 \<or> c = 0x0A \<or> c = 0x0B \<or> c = 0x0C \<or> c = 0x0D \<or> c = 0x20 \<or> c = 0xA0 \<or>
     c = 0x1680 \<or> (0x2000 \<le> c \<and> c \<le> 0x200A) \<or> c = 0x2028 \<or> c = 0x2029 \<or>
     c = 0x202F \<or> c = 0x205F \<or> c = 0x3000 \<or> c = 0xFEFF"

definition trim :: "jsstring \<Rightarrow> jsstring" where
  "trim s = rev (dropWhile isWhiteSpace (rev (dropWhile isWhiteSpace s)))"

text \<open>\<open>Array.prototype.join\<close> on an array of strings.\<close>

fun join :: "jsstring \<Rightarrow> jsstring list \<Rightarrow> jsstring" where
  "join sep [] = []"
| "join sep [x] = x"
| "join sep (x # y # ys) = x @ sep @ join sep (y # ys)"

text \<open>\<open>Number.prototype.toString\<close> on an integer: its decimal digits.\<close>

definition digit_char :: "nat \<Rightarrow> code_unit" where
  "digit_char d = of_nat (48 + d)"

fun nat_toString :: "nat \<Rightarrow> jsstring" where
  "nat_toString n =
     (if n < 10 then [digit_char n] else nat_toString (n div 10) @ [digit_char (n mod 10)])"

declare nat_toString.simps [simp del]

definition int_toString :: "int \<Rightarrow> jsstring" where
  "int_toString i = (if i < 0 then 0x2D # nat_toString (nat (- i)) else nat_toString (nat i))"

section \<open>JSON values, \<open>JSON.stringify\<close> and \<open>JSON.parse\<close>\<close>

text \<open>
  A number is an IEEE-754 double, given by its 64 bits.  The model does no floating-point
  arithmetic: the number that a numeric literal denotes (the rounding of its decimal value
  to a double, infinity on overflow) and the text that \<open>JSON.stringify\<close> writes for a
  number (its shortest decimal form, \<open>null\<close> when it is not finite) are functions of the
  platform, arguments of the parser and of the serialiser.  An object is the list of its
  members in the order of the text (the model does not move integer-like names to the
  front, as JavaScript does); a property read takes the last member of that name, as the
  overwriting of \<open>JSON.parse\<close> does.
\<close>

type_synonym number = "64 word"

datatype json =
    JNull
  | JBool bool
  | JNum number
  | JStr jsstring
  | JArr "json list"
  | JObj "(jsstring \<times> json) list"

definition get_prop :: "(jsstring \<times> json) list \<Rightarrow> jsstring \<Rightarrow> json option" where
  "get_prop ps k = map_of (rev ps) k"

subsection \<open>Serialisation\<close>

definition hex_char :: "nat \<Rightarrow> code_unit" where
  "hex_char d = (if d < 10 then of_nat (48 + d) else of_nat (87 + d))"

definition unicode_escape :: "code_unit \<Rightarrow> jsstring" where
  "unicode_escape c =
     (let n = unat c
      in [0x5C, 0x75, hex_char (n div 4096), hex_char (n div 256 mod 16),
          hex_char (n div 16 mod 16), hex_char (n mod 16)])"

definition is_high_surrogate :: "code_unit \<Rightarrow> bool" where
  "is_high_surrogate c \<longleftrightarrow> 0xD800 \<le> c \<and> c \<le> 0xDBFF"

definition is_low_surrogate :: "code_unit \<Rightarrow> bool" where
  "is_low_surrogate c \<longleftrightarrow> 0xDC00 \<le> c \<and> c \<le> 0xDFFF"

text \<open>
  QuoteJSONString: the two-character escapes, \<open>\uXXXX\<close> for the other control
  characters and for a surrogate that has no partner, every other code unit as it is.
\<close>

fun quote_chars :: "jsstring \<Rightarrow> jsstring" where
  "quote_chars [] = []"
| "quote_chars (c # cs) =
     (if c = 0x08 then [0x5C, 0x62] @ quote_chars cs
      else if c = 0x09 then [0x5C, 0x74] @ quote_chars cs
      else if c = 0x0A then [0x5C, 0x6E] @ quote_chars cs
      else if c = 0x0C then [0x5C, 0x66] @ quote_chars cs
      else if c = 0x0D then [0x5C, 0x72] @ quote_chars cs
      else if c = 0x22 then [0x5C, 0x22] @ quote_chars cs
      else if c = 0x5C then [0x5C, 0x5C] @ quote_chars cs
      else if c < 0x20 then unicode_escape c @ quote_chars cs
      else if is_high_surrogate c then
        (case cs of
           [] \<Rightarrow> unicode_escape c
         | d # ds \<Rightarrow>
             if is_low_surrogate d then c # d # quote_chars ds
             else unicode_escape c @ quote_chars cs)
      else if is_low_surrogate c then unicode_escape c @ quote_chars cs
      else c # quote_chars cs)"

definition QuoteJSONString :: "jsstring \<Rightarrow> jsstring" where
  "QuoteJSONString s = 0x22 # quote_chars s @ [0x22]"

text \<open>The first argument is the platform's text for a number.\<close>

fun JSON_stringify :: "(number \<Rightarrow> jsstring) \<Rightarrow> json \<Rightarrow> jsstring" where
  "JSON_stringify ser JNull = js ''null''"
| "JSON_stringify ser (JBool b) = (if b then js ''true'' else js ''false'')"
| "JSON_stringify ser (JNum n) = ser n"
| "JSON_stringify ser (JStr s) = QuoteJSONString s"
| "JSON_stringify ser (JArr vs) = 0x5B # join [0x2C] (map (JSON_stringify ser) vs) @ [0x5D]"
| "JSON_stringify ser (JObj ps) =
     0x7B #
     join [0x2C] (map (\<lambda>p. QuoteJSONString (fst p) @ 0x3A # JSON_stringify ser (snd p)) ps)
       @ [0x7D]"

subsection \<open>Parsing\<close>

definition is_json_ws :: "code_unit \<Rightarrow> bool" where
  "is_json_ws c \<longleftrightarrow> c = 0x20 \<or> c = 0x09 \<or> c = 0x0A \<or> c = 0x0D"

definition skip_ws :: "jsstring \<Rightarrow> jsstring" where
  "skip_ws s = dropWhile is_json_ws s"

definition is_digit :: "code_unit \<Rightarrow> bool" where
  "is_digit c \<longleftrightarrow> 0x30 \<le> c \<and> c \<le> 0x39"

definition hex_val :: "code_unit \<Rightarrow> nat option" where
  "hex_val c =
     (let n = unat c
      in if 48 \<le> n \<and> n \<le> 57 then Some (n - 48)
         else if 97 \<le> n \<and> n \<le> 102 then Some (n - 87)
         else if 65 \<le> n \<and> n \<le> 70 then Some (n - 55)
         else None)"

definition hex4 :: "code_unit \<Rightarrow> code_unit \<Rightarrow> code_unit \<Rightarrow> code_unit \<Rightarrow> code_unit option" where
  "hex4 a b c d =
     (case (hex_val a, hex_val b, hex_val c, hex_val d) of
        (Some p, Some q, Some r, Some s) \<Rightarrow> Some (of_nat (((p * 16 + q) * 16 + r) * 16 + s))
      | _ \<Rightarrow> None)"

definition unescape :: "code_unit \<Rightarrow> code_unit option" where
  "unescape e =
     (if e = 0x22 then Some 0x22
      else if e = 0x5C then Some 0x5C
      else if e = 0x2F then Some 0x2F
      else if e = 0x62 then Some 0x08
      else if e = 0x66 then Some 0x0C
      else if e = 0x6E then Some 0x0A
      else if e = 0x72 then Some 0x0D
      else if e = 0x74 then Some 0x09
      else None)"

definition cons_result :: "'a \<Rightarrow> ('a list \<times> 'b) option \<Rightarrow> ('a list \<times> 'b) option" where
  "cons_result x r = (case r of None \<Rightarrow> None | Some (xs, rest) \<Rightarrow> Some (x # xs, rest))"

text \<open>The characters of a string literal, after its opening quote, up to the closing one.\<close>

fun parse_string_chars :: "jsstring \<Rightarrow> (jsstring \<times> jsstring) option" where
  "parse_string_chars [] = None"
| "parse_string_chars (c # cs) =
     (if c = 0x22 then Some ([], cs)
      else if c = 0x5C then
        (case cs of
           [] \<Rightarrow> None
         | e # es \<Rightarrow>
             if e = 0x75 then
               (case es of
                  h1 # h2 # h3 # h4 # r \<Rightarrow>
                    (case hex4 h1 h2 h3 h4 of
                       None \<Rightarrow> None
                     | Some u \<Rightarrow> cons_result u (parse_string_chars r))
                | _ \<Rightarrow> None)
             else
               (case unescape e of
                  None \<Rightarrow> None
                | Some u \<Rightarrow> cons_result u (parse_string_chars es)))
      else if c < 0x20 then None
      else cons_result c (parse_string_chars cs))"

text \<open>
  The grammar of a number: an optional minus sign, the integer part (a single zero, or
  digits that do not start with zero), an optional fraction, an optional exponent.  Each
  function gives the text that is left after its part; \<open>number_literal\<close> gives the literal
  that was read and the text after it.
\<close>

definition skip_minus :: "jsstring \<Rightarrow> jsstring" where
  "skip_minus s = (case s of [] \<Rightarrow> [] | c # cs \<Rightarrow> if c = 0x2D then cs else s)"

definition parse_int_digits :: "jsstring \<Rightarrow> jsstring option" where
  "parse_int_digits s =
     (case s of
        [] \<Rightarrow> None
      | c # cs \<Rightarrow>
          if c = 0x30 then Some cs
          else if is_digit c then Some (dropWhile is_digit cs)
          else None)"

definition parse_fraction :: "jsstring \<Rightarrow> jsstring option" where
  "parse_fraction s =
     (case s of
        [] \<Rightarrow> Some []
      | c # cs \<Rightarrow>
          if c = 0x2E then
            (if takeWhile is_digit cs = [] then None else Some (dropWhile is_digit cs))
          else Some s)"

definition skip_sign :: "jsstring \<Rightarrow> jsstring" where
  "skip_sign s =
     (case s of [] \<Rightarrow> [] | c # cs \<Rightarrow> if c = 0x2D \<or> c = 0x2B then cs else s)"

definition parse_exponent :: "jsstring \<Rightarrow> jsstring option" where
  "parse_exponent s =
     (case s of
        [] \<Rightarrow> Some []
      | c # cs \<Rightarrow>
          if c = 0x65 \<or> c = 0x45 then
            (if takeWhile is_digit (skip_sign cs) = [] then None
             else Some (dropWhile is_digit (skip_sign cs)))
          else Some s)"

definition number_literal :: "jsstring \<Rightarrow> (jsstring \<times> jsstring) option" where
  "number_literal s =
     (case parse_int_digits (skip_minus s) of
        None \<Rightarrow> None
      | Some s2 \<Rightarrow>
          (case parse_fraction s2 of
             None \<Rightarrow> None
           | Some s3 \<Rightarrow>
               (case parse_exponent s3 of
                  None \<Rightarrow> None
                | Some s4 \<Rightarrow> Some (take (length s - length s4) s, s4))))"

definition parse_number :: "(jsstring \<Rightarrow> number) \<Rightarrow> jsstring \<Rightarrow> (number \<times> jsstring) option" where
  "parse_number conv s =
     (case number_literal s of
        None \<Rightarrow> None
      | Some (literal, rest) \<Rightarrow> Some (conv literal, rest))"

definition parse_literal :: "jsstring \<Rightarrow> (json \<times> jsstring) option" where
  "parse_literal s =
     (if take 4 s = js ''true'' then Some (JBool True, drop 4 s)
      else if take 5 s = js ''false'' then Some (JBool False, drop 5 s)
      else if take 4 s = js ''null'' then Some (JNull, drop 4 s)
      else None)"

text \<open>
  The recursive descent over values.  The first argument is the platform's number for a
  numeric literal.  The second argument bounds the depth of the recursion; it is spent
  when the parser enters an array or an object and when it moves to the next element, each
  time after reading at least one character, so the length of the text is always enough.
\<close>

fun parse_value :: "(jsstring \<Rightarrow> number) \<Rightarrow> nat \<Rightarrow> jsstring \<Rightarrow> (json \<times> jsstring) option"
  and parse_elements ::
    "(jsstring \<Rightarrow> number) \<Rightarrow> nat \<Rightarrow> jsstring \<Rightarrow> (json list \<times> jsstring) option"
  and parse_members ::
    "(jsstring \<Rightarrow> number) \<Rightarrow> nat \<Rightarrow> jsstring \<Rightarrow> ((jsstring \<times> json) list \<times> jsstring) option"
where
  "parse_value conv 0 s = None"
| "parse_value conv (Suc n) s =
     (case skip_ws s of
        [] \<Rightarrow> None
      | c # cs \<Rightarrow>
          if c = 0x7B then
            (case skip_ws cs of
               [] \<Rightarrow> None
             | d # ds \<Rightarrow>
                 if d = 0x7D then Some (JObj [], ds)
                 else map_option (apfst JObj) (parse_members conv n (d # ds)))
          else if c = 0x5B then
            (case skip_ws cs of
               [] \<Rightarrow> None
             | d # ds \<Rightarrow>
                 if d = 0x5D then Some (JArr [], ds)
                 else map_option (apfst JArr) (parse_elements conv n (d # ds)))
          else if c = 0x22 then map_option (apfst JStr) (parse_string_chars cs)
          else if c = 0x2D \<or> is_digit c then map_option (apfst JNum) (parse_number conv (c # cs))
          else parse_literal (c # cs))"
| "parse_elements conv 0 s = None"
| "parse_elements conv (Suc n) s =
     (case parse_value conv (Suc n) s of
        None \<Rightarrow> None
      | Some (v, r) \<Rightarrow>
          (case skip_ws r of
             [] \<Rightarrow> None
           | c # cs \<Rightarrow>
               if c = 0x5D then Some ([v], cs)
               else if c = 0x2C then cons_result v (parse_elements conv n cs)
               else None))"
| "parse_members conv 0 s = None"
| "parse_members conv (Suc n) s =
     (case skip_ws s of
        [] \<Rightarrow> None
      | q # qs \<Rightarrow>
          if q = 0x22 then
            (case parse_string_chars qs of
               None \<Rightarrow> None
             | Some (k, r1) \<Rightarrow>
                 (case skip_ws r1 of
                    [] \<Rightarrow> None
                  | colon # r2 \<Rightarrow>
                      if colon = 0x3A then
                        (case parse_value conv (Suc n) r2 of
                           None \<Rightarrow> None
                         | Some (v, r3) \<Rightarrow>
                             (case skip_ws r3 of
                                [] \<Rightarrow> None
                              | c # cs \<Rightarrow>
                                  if c = 0x7D then Some ([(k, v)], cs)
                                  else if c = 0x2C then cons_result (k, v) (parse_members conv n cs)
                                  else None))
                      else None))
          else None)"

definition JSON_parse :: "(jsstring \<Rightarrow> number) \<Rightarrow> jsstring \<Rightarrow> json option" where
  "JSON_parse conv s =
     (case parse_value conv (length s) s of
        None \<Rightarrow> None
      | Some (v, r) \<Rightarrow> if skip_ws r = [] then Some v else None)"

section \<open>Data model (\<open>types.ts\<close>)\<close>

text \<open>
  \<open>generateStudyNotes\<close> returns the value of \<open>JSON.parse\<close> under a type assertion,
  which TypeScript erases: the notes held by the application are a JSON value.
  \<open>conforms_StudyNotes\<close> is the shape that the interface \<open>StudyNotes\<close> declares.
  The field \<open>id\<close> is \<open>item_id\<close> here and the field \<open>notes\<close> is \<open>item_notes\<close>.
\<close>

record NoteHistoryItem =
  item_id :: jsstring
  timestamp :: number
  originalText :: jsstring
  item_notes :: json

fun is_string :: "json \<Rightarrow> bool" where
  "is_string (JStr s) = True"
| "is_string _ = False"

fun is_string_array :: "json \<Rightarrow> bool" where
  "is_string_array (JArr vs) = list_all is_string vs"
| "is_string_array _ = False"

definition has_string :: "(jsstring \<times> json) list \<Rightarrow> string \<Rightarrow> bool" where
  "has_string ps k = (case get_prop ps (js k) of Some v \<Rightarrow> is_string v | None \<Rightarrow> False)"

definition has_string_array :: "(jsstring \<times> json) list \<Rightarrow> string \<Rightarrow> bool" where
  "has_string_array ps k =
     (case get_prop ps (js k) of Some v \<Rightarrow> is_string_array v | None \<Rightarrow> False)"

fun is_mcq :: "json \<Rightarrow> bool" where
  "is_mcq (JObj ps) =
     (has_string ps ''question'' \<and> has_string_array ps ''options'' \<and> has_string ps ''answer'')"
| "is_mcq _ = False"

fun is_shortAnswer :: "json \<Rightarrow> bool" where
  "is_shortAnswer (JObj ps) = (has_string ps ''question'' \<and> has_string ps ''answer'')"
| "is_shortAnswer _ = False"

fun is_examStyle :: "json \<Rightarrow> bool" where
  "is_examStyle (JObj ps) = (has_string ps ''question'' \<and> has_string ps ''modelAnswer'')"
| "is_examStyle _ = False"

fun is_array_of :: "(json \<Rightarrow> bool) \<Rightarrow> json \<Rightarrow> bool" where
  "is_array_of P (JArr vs) = list_all P vs"
| "is_array_of P _ = False"

fun is_studyQuestions :: "json \<Rightarrow> bool" where
  "is_studyQuestions (JObj ps) =
     ((case get_prop ps (js ''mcqs'') of Some v \<Rightarrow> is_array_of is_mcq v | None \<Rightarrow> False) \<and>
      (case get_prop ps (js ''shortAnswers'') of
         Some v \<Rightarrow> is_array_of is_shortAnswer v
       | None \<Rightarrow> False) \<and>
      (case get_prop ps (js ''examStyle'') of Some v \<Rightarrow> is_examStyle v | None \<Rightarrow> False))"
| "is_studyQuestions _ = False"

fun conforms_StudyNotes :: "json \<Rightarrow> bool" where
  "conforms_StudyNotes (JObj ps) =
     (has_string ps ''topicOverview'' \<and> has_string ps ''detailedExplanation'' \<and>
      has_string_array ps ''keyPoints'' \<and> has_string_array ps ''examples'' \<and>
      has_string_array ps ''commonMistakes'' \<and> has_string_array ps ''examTips'' \<and>
      (case get_prop ps (js ''studyQuestions'') of
         Some v \<Rightarrow> is_studyQuestions v
       | None \<Rightarrow> False))"
| "conforms_StudyNotes _ = False"

text \<open>
  The history as \<open>JSON.stringify\<close> sees it: an array of objects with the four
  properties in the order of the object literal that creates an item.
\<close>

definition item_toJSON :: "NoteHistoryItem \<Rightarrow> json" where
  "item_toJSON it =
     JObj [(js ''id'', JStr (item_id it)),
           (js ''timestamp'', JNum (timestamp it)),
           (js ''originalText'', JStr (originalText it)),
           (js ''notes'', item_notes it)]"

definition history_toJSON :: "NoteHistoryItem list \<Rightarrow> json" where
  "history_toJSON h = JArr (map item_toJSON h)"

text \<open>
  The value of \<open>JSON.parse\<close> goes into the history state unchecked.  \<open>as_History\<close>
  reads it at the declared type \<open>NoteHistoryItem[]\<close>: \<open>None\<close> is a value outside
  that type.
\<close>

fun as_NoteHistoryItem :: "json \<Rightarrow> NoteHistoryItem option" where
  "as_NoteHistoryItem (JObj ps) =
     (case (get_prop ps (js ''id''), get_prop ps (js ''timestamp''),
            get_prop ps (js ''originalText''), get_prop ps (js ''notes'')) of
        (Some (JStr i), Some (JNum t), Some (JStr txt), Some n) \<Rightarrow>
          Some \<lparr>item_id = i, timestamp = t, originalText = txt, item_notes = n\<rparr>
      | _ \<Rightarrow> None)"
| "as_NoteHistoryItem _ = None"

fun as_History :: "json \<Rightarrow> NoteHistoryItem list option" where
  "as_History (JArr vs) = those (map as_NoteHistoryItem vs)"
| "as_History _ = None"

section \<open>The environment: remote service, document libraries, platform\<close>

text \<open>
  A thrown value is an \<open>Error\<close> with its message or something else.  The generative
  service, the document libraries and the platform's conversions of numbers are functions
  of the environment: the text of the service's response (\<open>response.text\<close>, which may be
  undefined), the raw text of a Word document, the loaded PDF document with its pages'
  text items, the decoded text of a plain file, the number that a numeric literal
  denotes, and the text that \<open>JSON.stringify\<close> writes for a number.
\<close>

datatype exn = Error jsstring | Thrown

type_synonym File = "8 word list"

datatype fileType = pdf | docx | text'

record PDFDocument =
  numPages :: nat
  getPage :: "nat \<Rightarrow> exn + jsstring list"

record env =
  generateContent :: "jsstring \<Rightarrow> exn + jsstring option"
  extractRawText :: "File \<Rightarrow> exn + jsstring"
  getDocument :: "File \<Rightarrow> exn + PDFDocument"
  file_text :: "File \<Rightarrow> exn + jsstring"
  StringToNumber :: "jsstring \<Rightarrow> number"
  NumberToJSON :: "number \<Rightarrow> jsstring"

section \<open>The generation client (\<open>services/geminiService.ts\<close>)\<close>

definition malformed_message :: jsstring where
  "malformed_message =
     js (''I had trouble structuring those notes. '' @
         ''Please try pasting shorter content or checking the text quality.'')"

text \<open>\<open>JSON.parse\<close> converts its argument to a string first.\<close>

definition ToString :: "jsstring option \<Rightarrow> jsstring" where
  "ToString t = (case t of None \<Rightarrow> js ''undefined'' | Some s \<Rightarrow> s)"

definition generateStudyNotes :: "env \<Rightarrow> jsstring \<Rightarrow> exn + json" where
  "generateStudyNotes e content =
     (case generateContent e content of
        Inl err \<Rightarrow> Inl err
      | Inr response_text \<Rightarrow>
          (case JSON_parse (StringToNumber e) (ToString response_text) of
             None \<Rightarrow> Inl (Error malformed_message)
           | Some result \<Rightarrow> Inr result))"

section \<open>The application state and its handlers (\<open>App\<close>)\<close>

text \<open>
  The state holds the values of the \<open>useState\<close> hooks that the handlers use (the theme
  and the step of the loading message are left out), the local storage, and a trace of
  what the component did outside the state: entering and leaving the loading state, the
  requests sent to the generation client, the writes to local storage, the console
  errors of the component (not the one inside \<open>generateStudyNotes\<close>), the scrolling.
  An event of \<open>step\<close> runs its handler to the end.  The upload handler is also given in
  its two parts, up to the request to the generation client and from the response on:
  while the request is in flight the component takes other events.
\<close>

datatype effect =
    SetLoading bool
  | Request jsstring
  | StorageSet jsstring jsstring
  | ConsoleError
  | ScrollToTop

record AppState =
  inputText :: jsstring
  loading :: bool
  error :: "jsstring option"
  "notes" :: "json option"
  history :: "NoteHistoryItem list"
  showUploadMenu :: bool
  currentFileType :: "fileType option"
  storage :: "jsstring \<rightharpoonup> jsstring"
  trace :: "effect list"

definition HISTORY_KEY :: jsstring where
  "HISTORY_KEY = js ''academia_mind_history''"

definition initialState :: "(jsstring \<rightharpoonup> jsstring) \<Rightarrow> AppState" where
  "initialState ls =
     \<lparr>inputText = [], loading = False, error = None, notes = None, history = [],
      showUploadMenu = False, currentFileType = None, storage = ls, trace = []\<rparr>"

definition emit :: "effect \<Rightarrow> AppState \<Rightarrow> AppState" where
  "emit x st = st\<lparr>trace := trace st @ [x]\<rparr>"

text \<open>The effect on \<open>[history]\<close>: every new history value is written to local storage.\<close>

definition persist :: "jsstring \<Rightarrow> AppState \<Rightarrow> AppState" where
  "persist serialized st =
     emit (StorageSet HISTORY_KEY serialized)
       (st\<lparr>storage := (storage st)(HISTORY_KEY \<mapsto> serialized)\<rparr>)"

definition persistHistory :: "env \<Rightarrow> AppState \<Rightarrow> AppState" where
  "persistHistory e st =
     persist (JSON_stringify (NumberToJSON e) (history_toJSON (history st))) st"

text \<open>
  The two effects on the history that run when the component mounts: the saved history is
  read and parsed, the initial empty history is written, and a parsed value becomes the
  history and is written again.  \<open>Inl v\<close> is a parsed value \<open>v\<close> that is not a
  \<open>NoteHistoryItem[]\<close>.
\<close>

definition mount :: "env \<Rightarrow> (jsstring \<rightharpoonup> jsstring) \<Rightarrow> json + AppState" where
  "mount e ls =
     (case ls HISTORY_KEY of
        None \<Rightarrow> Inr (persistHistory e (initialState ls))
      | Some savedHistory \<Rightarrow>
          if savedHistory = [] then Inr (persistHistory e (initialState ls))
          else
            (case JSON_parse (StringToNumber e) savedHistory of
               None \<Rightarrow> Inr (persistHistory e (emit ConsoleError (initialState ls)))
             | Some v \<Rightarrow>
                 (case as_History v of
                    None \<Rightarrow> Inl v
                  | Some h \<Rightarrow>
                      Inr (persist (JSON_stringify (NumberToJSON e) v)
                             ((persistHistory e (initialState ls))\<lparr>history := h\<rparr>)))))"

text \<open>The PDF loop: pages \<open>1\<close> to \<open>numPages\<close>, each page's items joined and a newline.\<close>

function pdf_loop :: "PDFDocument \<Rightarrow> nat \<Rightarrow> jsstring \<Rightarrow> exn + jsstring" where
  "pdf_loop doc i fullText =
     (if i \<le> numPages doc then
        (case getPage doc i of
           Inl err \<Rightarrow> Inl err
         | Inr items \<Rightarrow> pdf_loop doc (i + 1) (fullText @ join [0x20] items @ [0x0A]))
      else Inr fullText)"
  by pat_completeness auto
termination
  by (relation "measure (\<lambda>(doc, i, fullText). Suc (numPages doc) - i)") auto

declare pdf_loop.simps [simp del]

definition extractText :: "env \<Rightarrow> fileType option \<Rightarrow> File \<Rightarrow> exn + jsstring" where
  "extractText e ft f =
     (if ft = Some docx then extractRawText e f
      else if ft = Some pdf then
        (case getDocument e f of
           Inl err \<Rightarrow> Inl err
         | Inr doc \<Rightarrow> pdf_loop doc 1 [])
      else file_text e f)"

definition catch_message :: "string \<Rightarrow> exn \<Rightarrow> jsstring" where
  "catch_message fallback err = (case err of Error m \<Rightarrow> m | Thrown \<Rightarrow> js fallback)"

text \<open>
  The item that both handlers build; \<open>now\<close> holds the two readings of \<open>Date.now()\<close>,
  the first for the id and the second for the timestamp.  A reading is an integer number
  of milliseconds: its text is its decimal digits, and its number is the one that these
  digits denote.
\<close>

definition newItem :: "env \<Rightarrow> int \<times> int \<Rightarrow> jsstring \<Rightarrow> json \<Rightarrow> NoteHistoryItem" where
  "newItem e now txt generatedNotes =
     \<lparr>item_id = int_toString (fst now),
      timestamp = StringToNumber e (int_toString (snd now)),
      originalText = txt, item_notes = generatedNotes\<rparr>"

definition recordSuccess ::
  "env \<Rightarrow> int \<times> int \<Rightarrow> jsstring \<Rightarrow> json \<Rightarrow> AppState \<Rightarrow> AppState" where
  "recordSuccess e now txt generatedNotes st =
     st\<lparr>notes := Some generatedNotes,
        history := take 10 (newItem e now txt generatedNotes # history st)\<rparr>"

text \<open>
  \<open>handleFileUpload\<close> up to its request to the generation client: the upload ends
  there (\<open>Done\<close>) when the extraction fails or gives a blank text, and waits for the
  response otherwise (\<open>Awaiting\<close>, with the state at the time of the request and the text
  sent).  \<open>handleFileUpload_response\<close> is the rest of the handler, run on the state that
  the response finds; its setters write the notes, the history, the error and the loading
  flag.  \<open>handleFileUpload\<close> is an upload with no other event in between, and
  \<open>upload_state\<close> is the state that an upload has reached.
\<close>

datatype upload = Done AppState | Awaiting AppState jsstring

fun upload_state :: "upload \<Rightarrow> AppState" where
  "upload_state (Done st) = st"
| "upload_state (Awaiting st extractedText) = st"

definition handleFileUpload_request :: "env \<Rightarrow> File \<Rightarrow> AppState \<Rightarrow> upload" where
  "handleFileUpload_request e f st =
     (let st1 = emit (SetLoading True)
                  (st\<lparr>loading := True, error := None, showUploadMenu := False\<rparr>)
      in case extractText e (currentFileType st) f of
           Inl err \<Rightarrow>
             Done (emit (SetLoading False)
                     (st1\<lparr>error := Some (catch_message ''Error processing file.'' err),
                          loading := False\<rparr>))
         | Inr extractedText \<Rightarrow>
             if trim extractedText = [] then
               Done (emit (SetLoading False)
                       (st1\<lparr>error := Some (js ''Document appears to be empty.''),
                            loading := False\<rparr>))
             else
               Awaiting (emit (Request extractedText) (st1\<lparr>inputText := extractedText\<rparr>))
                 extractedText)"

definition handleFileUpload_response ::
  "env \<Rightarrow> exn + json \<Rightarrow> int \<times> int \<Rightarrow> jsstring \<Rightarrow> AppState \<Rightarrow> AppState" where
  "handleFileUpload_response e outcome now extractedText st =
     (case outcome of
        Inl err \<Rightarrow>
          emit (SetLoading False)
            (st\<lparr>error := Some (catch_message ''Error processing file.'' err),
                loading := False\<rparr>)
      | Inr generatedNotes \<Rightarrow>
          persistHistory e
            (emit (SetLoading False)
               ((recordSuccess e now extractedText generatedNotes st)\<lparr>loading := False\<rparr>)))"

definition handleFileUpload :: "env \<Rightarrow> File option \<Rightarrow> int \<times> int \<Rightarrow> AppState \<Rightarrow> AppState" where
  "handleFileUpload e file_opt now st =
     (case file_opt of
        None \<Rightarrow> st
      | Some f \<Rightarrow>
          (case handleFileUpload_request e f st of
             Done st' \<Rightarrow> st'
           | Awaiting st2 extractedText \<Rightarrow>
               handleFileUpload_response e (generateStudyNotes e extractedText) now
                 extractedText st2))"

definition triggerFilePicker :: "fileType \<Rightarrow> AppState \<Rightarrow> AppState" where
  "triggerFilePicker ty st = st\<lparr>currentFileType := Some ty\<rparr>"

definition handleSubmit :: "env \<Rightarrow> int \<times> int \<Rightarrow> AppState \<Rightarrow> AppState" where
  "handleSubmit e now st =
     (if trim (inputText st) = [] then st
      else
        (let st1 = emit (Request (inputText st))
                     (emit (SetLoading True) (st\<lparr>loading := True, error := None\<rparr>))
         in case generateStudyNotes e (inputText st) of
              Inl err \<Rightarrow>
                emit (SetLoading False)
                  (st1\<lparr>error := Some (catch_message ''Analysis failed. Please try again.'' err),
                       loading := False\<rparr>)
            | Inr generatedNotes \<Rightarrow>
                persistHistory e
                  (emit (SetLoading False)
                     ((recordSuccess e now (inputText st) generatedNotes st1)
                        \<lparr>loading := False\<rparr>))))"

text \<open>The click on an entry of the session history.\<close>

definition selectHistoryItem :: "NoteHistoryItem \<Rightarrow> AppState \<Rightarrow> AppState" where
  "selectHistoryItem item st =
     emit ScrollToTop (st\<lparr>notes := Some (item_notes item), inputText := originalText item\<rparr>)"

text \<open>
  The events of the user interface and the state after a sequence of them.  The text area
  is disabled while the component is loading; the Clear button, the entries of the history
  and the upload menu are not.
\<close>

datatype event =
    Submit env "int \<times> int"
  | FileUpload env "File option" "int \<times> int"
  | PickFileType fileType
  | SelectHistory nat
  | ChangeInput jsstring
  | ClearInput
  | ToggleUploadMenu

fun step :: "AppState \<Rightarrow> event \<Rightarrow> AppState" where
  "step st (Submit e now) = handleSubmit e now st"
| "step st (FileUpload e f now) = handleFileUpload e f now st"
| "step st (PickFileType ty) = triggerFilePicker ty st"
| "step st (SelectHistory i) =
     (if i < length (history st) then selectHistoryItem (history st ! i) st else st)"
| "step st (ChangeInput s) = st\<lparr>inputText := s\<rparr>"
| "step st ClearInput = st\<lparr>inputText := []\<rparr>"
| "step st ToggleUploadMenu = st\<lparr>showUploadMenu := \<not> showUploadMenu st\<rparr>"

definition run :: "AppState \<Rightarrow> event list \<Rightarrow> AppState" where
  "run st evs = foldl step st evs"

section \<open>The specification's reading of PDF extraction\<close>

text \<open>
  The specification's text for PDF documents: the fragments of a page joined by single
  spaces, the pages joined by a newline between consecutive pages.
\<close>

definition spec_pdf_text :: "jsstring list list \<Rightarrow> jsstring" where
  "spec_pdf_text pages = join [0x0A] (map (join [0x20]) pages)"

section \<open>Concrete environments and states\<close>

text \<open>
  An environment whose service and libraries give the same answer to every request (its
  conversions of numbers give zero and the text \<open>0\<close>; no statement below looks at a
  number), a PDF document given by the list of its pages, a state with a given input
  text, and an item of an earlier generation.
\<close>

definition const_env :: "exn + jsstring option \<Rightarrow> exn + jsstring \<Rightarrow> exn + PDFDocument \<Rightarrow> env" where
  "const_env reply extracted doc =
     \<lparr>generateContent = (\<lambda>content. reply), extractRawText = (\<lambda>f. extracted),
      getDocument = (\<lambda>f. doc), file_text = (\<lambda>f. extracted),
      StringToNumber = (\<lambda>literal. 0), NumberToJSON = (\<lambda>x. js ''0'')\<rparr>"

definition pdf_of_pages :: "jsstring list list \<Rightarrow> PDFDocument" where
  "pdf_of_pages pages =
     \<lparr>numPages = length pages,
      getPage = (\<lambda>i. if 1 \<le> i \<and> i \<le> length pages then Inr (pages ! (i - 1)) else Inl Thrown)\<rparr>"

definition state_with_input :: "jsstring \<Rightarrow> AppState" where
  "state_with_input s = (initialState Map.empty)\<lparr>inputText := s\<rparr>"

definition earlier_item :: NoteHistoryItem where
  "earlier_item =
     \<lparr>item_id = js ''0'', timestamp = 0, originalText = js ''src'', item_notes = JNull\<rparr>"

section \<open>Basic facts about the state and the two parts of an upload\<close>

lemma emit_fields [simp]:
  "history (emit x st) = history st"
  "inputText (emit x st) = inputText st"
  "error (emit x st) = error st"
  "notes (emit x st) = notes st"
  "storage (emit x st) = storage st"
  "loading (emit x st) = loading st"
  "showUploadMenu (emit x st) = showUploadMenu st"
  "currentFileType (emit x st) = currentFileType st"
  "trace (emit x st) = trace st @ [x]"
  by (simp_all add: emit_def)

lemma persist_fields [simp]:
  "history (persist t st) = history st"
  "inputText (persist t st) = inputText st"
  "error (persist t st) = error st"
  "notes (persist t st) = notes st"
  "loading (persist t st) = loading st"
  "storage (persist t st) = (storage st)(HISTORY_KEY \<mapsto> t)"
  "trace (persist t st) = trace st @ [StorageSet HISTORY_KEY t]"
  by (simp_all add: persist_def)

lemma persistHistory_fields [simp]:
  "history (persistHistory e st) = history st"
  "inputText (persistHistory e st) = inputText st"
  "error (persistHistory e st) = error st"
  "notes (persistHistory e st) = notes st"
  "loading (persistHistory e st) = loading st"
  "storage (persistHistory e st)
     = (storage st)(HISTORY_KEY \<mapsto> JSON_stringify (NumberToJSON e) (history_toJSON (history st)))"
  "trace (persistHistory e st)
     = trace st @ [StorageSet HISTORY_KEY
                     (JSON_stringify (NumberToJSON e) (history_toJSON (history st)))]"
  by (simp_all add: persistHistory_def)

lemma initialState_fields [simp]:
  "history (initialState ls) = []"
  "inputText (initialState ls) = []"
  "error (initialState ls) = None"
  "notes (initialState ls) = None"
  "loading (initialState ls) = False"
  "storage (initialState ls) = ls"
  "trace (initialState ls) = []"
  "currentFileType (initialState ls) = None"
  by (simp_all add: initialState_def)

lemma request_failed_extraction:
  "extractText e (currentFileType st) f = Inl err \<Longrightarrow>
   handleFileUpload_request e f st
     = Done (emit (SetLoading False)
               ((emit (SetLoading True)
                   (st\<lparr>loading := True, error := None, showUploadMenu := False\<rparr>))
                  \<lparr>error := Some (catch_message ''Error processing file.'' err),
                   loading := False\<rparr>))"
  by (simp add: handleFileUpload_request_def Let_def)

lemma request_blank:
  "extractText e (currentFileType st) f = Inr x \<Longrightarrow> trim x = [] \<Longrightarrow>
   handleFileUpload_request e f st
     = Done (emit (SetLoading False)
               ((emit (SetLoading True)
                   (st\<lparr>loading := True, error := None, showUploadMenu := False\<rparr>))
                  \<lparr>error := Some (js ''Document appears to be empty.''), loading := False\<rparr>))"
  by (simp add: handleFileUpload_request_def Let_def)

lemma request_awaiting:
  "extractText e (currentFileType st) f = Inr x \<Longrightarrow> trim x \<noteq> [] \<Longrightarrow>
   handleFileUpload_request e f st
     = Awaiting (emit (Request x)
                   ((emit (SetLoading True)
                       (st\<lparr>loading := True, error := None, showUploadMenu := False\<rparr>))
                      \<lparr>inputText := x\<rparr>)) x"
  by (simp add: handleFileUpload_request_def Let_def)

lemma response_failure_fields [simp]:
  "inputText (handleFileUpload_response e (Inl err) now x st) = inputText st"
  "history (handleFileUpload_response e (Inl err) now x st) = history st"
  "storage (handleFileUpload_response e (Inl err) now x st) = storage st"
  "notes (handleFileUpload_response e (Inl err) now x st) = notes st"
  "loading (handleFileUpload_response e (Inl err) now x st) = False"
  "error (handleFileUpload_response e (Inl err) now x st)
     = Some (catch_message ''Error processing file.'' err)"
  "trace (handleFileUpload_response e (Inl err) now x st) = trace st @ [SetLoading False]"
  by (simp_all add: handleFileUpload_response_def)

lemma response_success_fields [simp]:
  "inputText (handleFileUpload_response e (Inr g) now x st) = inputText st"
  "history (handleFileUpload_response e (Inr g) now x st) = take 10 (newItem e now x g # history st)"
  "notes (handleFileUpload_response e (Inr g) now x st) = Some g"
  "error (handleFileUpload_response e (Inr g) now x st) = error st"
  "loading (handleFileUpload_response e (Inr g) now x st) = False"
  by (simp_all add: handleFileUpload_response_def recordSuccess_def)

section \<open>The handlers on blank input\<close>

text \<open>
  C10: a submit whose input text is empty or only whitespace returns the state as it
  was: the loading state is not entered, no request is sent to the generation client,
  and the notes, the error message and the history are the ones before.
\<close>

theorem blank_submit_is_noop:
  assumes "trim (inputText st) = []"
  shows "handleSubmit e now st = st"
  using assms by (simp add: handleSubmit_def)

theorem blank_submit_is_noop_witness:
  "trim (inputText (state_with_input [0x20, 0x09, 0xA0, 0x0A])) = [] \<and>
   handleSubmit (const_env (Inr (Some (js ''{}''))) (Inl Thrown) (Inl Thrown)) (0, 0)
     (state_with_input [0x20, 0x09, 0xA0, 0x0A]) = state_with_input [0x20, 0x09, 0xA0, 0x0A]"
proof -
  have h: "trim (inputText (state_with_input [0x20, 0x09, 0xA0, 0x0A])) = []"
    by (simp add: state_with_input_def trim_def isWhiteSpace_def)
  show ?thesis
    using h blank_submit_is_noop [OF h] by simp
qed

text \<open>
  C3: an upload whose extracted text is empty after trimming ends with the error
  "Document appears to be empty."; the trace shows the loading state entered and left and
  no request to the generation client, and the history, the storage, the notes and the
  input text are the ones before.
\<close>

theorem empty_document_fails_before_generation:
  assumes "extractText e (currentFileType st) f = Inr extracted"
    and "trim extracted = []"
  shows "error (handleFileUpload e (Some f) now st) = Some (js ''Document appears to be empty.'') \<and>
    trace (handleFileUpload e (Some f) now st) = trace st @ [SetLoading True, SetLoading False] \<and>
    history (handleFileUpload e (Some f) now st) = history st \<and>
    storage (handleFileUpload e (Some f) now st) = storage st \<and>
    notes (handleFileUpload e (Some f) now st) = notes st \<and>
    inputText (handleFileUpload e (Some f) now st) = inputText st"
  using assms by (simp add: handleFileUpload_def request_blank)

theorem empty_document_fails_before_generation_witness:
  "extractText (const_env (Inr (Some (js ''{}''))) (Inr [0x20, 0x0A]) (Inl Thrown))
     (currentFileType (state_with_input (js ''old''))) [] = Inr [0x20, 0x0A] \<and>
   trim [0x20, 0x0A] = [] \<and>
   error (handleFileUpload (const_env (Inr (Some (js ''{}''))) (Inr [0x20, 0x0A]) (Inl Thrown))
            (Some []) (1, 1) (state_with_input (js ''old'')))
     = Some (js ''Document appears to be empty.'') \<and>
   trace (handleFileUpload (const_env (Inr (Some (js ''{}''))) (Inr [0x20, 0x0A]) (Inl Thrown))
            (Some []) (1, 1) (state_with_input (js ''old'')))
     = [SetLoading True, SetLoading False] \<and>
   history (handleFileUpload (const_env (Inr (Some (js ''{}''))) (Inr [0x20, 0x0A]) (Inl Thrown))
              (Some []) (1, 1) (state_with_input (js ''old''))) = []"
proof -
  have h1: "extractText (const_env (Inr (Some (js ''{}''))) (Inr [0x20, 0x0A]) (Inl Thrown))
     (currentFileType (state_with_input (js ''old''))) [] = Inr [0x20, 0x0A]"
    by (simp add: extractText_def const_env_def state_with_input_def)
  have h2: "trim [0x20, 0x0A :: code_unit] = []"
    by (simp add: trim_def isWhiteSpace_def)
  show ?thesis
    using h1 h2 empty_document_fails_before_generation [OF h1 h2, of "(1, 1)"]
    by (simp add: state_with_input_def)
qed

section \<open>The input text on the upload path\<close>

text \<open>
  C9, as the code has it: when the extraction gives a text that is not blank, the upload
  reaches its request with the extracted text already in the input text (and the request
  in the trace, the loading state entered, the history, notes and storage untouched).
  The rest of the handler never writes the input text, whatever the response and
  whatever the state it finds: after a failure it sets the error, leaves the loading
  state, and keeps the history, the storage and the notes.  So an upload with no other
  event between request and response ends with the extracted text as the input text,
  after a failed generation and after a successful one.
\<close>

theorem upload_writes_input_before_request:
  assumes "extractText e (currentFileType st) f = Inr extracted"
    and "trim extracted \<noteq> []"
  shows "(\<exists>st2. handleFileUpload_request e f st = Awaiting st2 extracted \<and>
            inputText st2 = extracted \<and>
            trace st2 = trace st @ [SetLoading True, Request extracted] \<and>
            loading st2 \<and> error st2 = None \<and>
            history st2 = history st \<and> notes st2 = notes st \<and> storage st2 = storage st) \<and>
    (\<forall>outcome st'.
        inputText (handleFileUpload_response e outcome now extracted st') = inputText st') \<and>
    (\<forall>err st'.
        error (handleFileUpload_response e (Inl err) now extracted st')
          = Some (catch_message ''Error processing file.'' err) \<and>
        trace (handleFileUpload_response e (Inl err) now extracted st')
          = trace st' @ [SetLoading False] \<and>
        history (handleFileUpload_response e (Inl err) now extracted st') = history st' \<and>
        storage (handleFileUpload_response e (Inl err) now extracted st') = storage st' \<and>
        notes (handleFileUpload_response e (Inl err) now extracted st') = notes st') \<and>
    (generateStudyNotes e extracted = Inl err \<longrightarrow>
        inputText (handleFileUpload e (Some f) now st) = extracted \<and>
        error (handleFileUpload e (Some f) now st)
          = Some (catch_message ''Error processing file.'' err) \<and>
        trace (handleFileUpload e (Some f) now st)
          = trace st @ [SetLoading True, Request extracted, SetLoading False] \<and>
        history (handleFileUpload e (Some f) now st) = history st \<and>
        storage (handleFileUpload e (Some f) now st) = storage st \<and>
        notes (handleFileUpload e (Some f) now st) = notes st) \<and>
    (generateStudyNotes e extracted = Inr g \<longrightarrow>
        inputText (handleFileUpload e (Some f) now st) = extracted)"
proof -
  have a: "\<And>outcome st'.
        inputText (handleFileUpload_response e outcome now extracted st') = inputText st'"
    subgoal for outcome st' by (cases outcome) simp_all
    done
  show ?thesis
    using assms a by (simp add: handleFileUpload_def request_awaiting)
qed

theorem upload_writes_input_before_request_witness:
  "extractText (const_env (Inl (Error (js ''offline''))) (Inr (js ''abc'')) (Inl Thrown))
     (currentFileType (state_with_input (js ''old''))) [] = Inr (js ''abc'') \<and>
   trim (js ''abc'') \<noteq> [] \<and>
   generateStudyNotes (const_env (Inl (Error (js ''offline''))) (Inr (js ''abc'')) (Inl Thrown))
     (js ''abc'') = Inl (Error (js ''offline'')) \<and>
   inputText (upload_state
      (handleFileUpload_request (const_env (Inl (Error (js ''offline''))) (Inr (js ''abc'')) (Inl Thrown))
         [] (state_with_input (js ''old'')))) = js ''abc'' \<and>
   trace (upload_state
      (handleFileUpload_request (const_env (Inl (Error (js ''offline''))) (Inr (js ''abc'')) (Inl Thrown))
         [] (state_with_input (js ''old'')))) = [SetLoading True, Request (js ''abc'')] \<and>
   inputText (handleFileUpload (const_env (Inl (Error (js ''offline''))) (Inr (js ''abc'')) (Inl Thrown))
                (Some []) (1, 1) (state_with_input (js ''old''))) = js ''abc'' \<and>
   error (handleFileUpload (const_env (Inl (Error (js ''offline''))) (Inr (js ''abc'')) (Inl Thrown))
            (Some []) (1, 1) (state_with_input (js ''old''))) = Some (js ''offline'')"
proof -
  let ?e = "const_env (Inl (Error (js ''offline''))) (Inr (js ''abc'')) (Inl Thrown)"
  let ?st = "state_with_input (js ''old'')"
  have h1: "extractText ?e (currentFileType ?st) [] = Inr (js ''abc'')"
    by (simp add: extractText_def const_env_def state_with_input_def)
  have h2: "trim (js ''abc'') \<noteq> []"
    by (simp add: trim_def isWhiteSpace_def js_def)
  have h3: "generateStudyNotes ?e (js ''abc'') = Inl (Error (js ''offline''))"
    by (simp add: generateStudyNotes_def const_env_def)
  have t: "trace ?st = []"
    by (simp add: state_with_input_def)
  show ?thesis
    using h1 h2 h3 t
      upload_writes_input_before_request
        [OF h1 h2, of "(1, 1)" "Error (js ''offline'')" JNull]
    by (auto simp: catch_message_def)
qed

text \<open>
  C9, as the claim has it, fails when another event changes the input text while the
  request is in flight: the upload has written the extracted text "abc" before its
  request, the Clear button (which is not disabled while loading) empties the input
  text, the generation fails, and the input text after the failure is empty, not "abc".
\<close>

theorem clear_during_request_changes_input_text:
  "extractText (const_env (Inl (Error (js ''offline''))) (Inr (js ''abc'')) (Inl Thrown))
     (currentFileType (state_with_input (js ''old''))) [] = Inr (js ''abc'') \<and>
   generateStudyNotes (const_env (Inl (Error (js ''offline''))) (Inr (js ''abc'')) (Inl Thrown))
     (js ''abc'') = Inl (Error (js ''offline'')) \<and>
   handleFileUpload_request (const_env (Inl (Error (js ''offline''))) (Inr (js ''abc'')) (Inl Thrown))
     [] (state_with_input (js ''old''))
     = Awaiting (upload_state
         (handleFileUpload_request
            (const_env (Inl (Error (js ''offline''))) (Inr (js ''abc'')) (Inl Thrown))
            [] (state_with_input (js ''old'')))) (js ''abc'') \<and>
   inputText (upload_state
      (handleFileUpload_request (const_env (Inl (Error (js ''offline''))) (Inr (js ''abc'')) (Inl Thrown))
         [] (state_with_input (js ''old'')))) = js ''abc'' \<and>
   inputText
     (handleFileUpload_response
        (const_env (Inl (Error (js ''offline''))) (Inr (js ''abc'')) (Inl Thrown))
        (generateStudyNotes
           (const_env (Inl (Error (js ''offline''))) (Inr (js ''abc'')) (Inl Thrown)) (js ''abc''))
        (1, 1) (js ''abc'')
        (step (upload_state
                 (handleFileUpload_request
                    (const_env (Inl (Error (js ''offline''))) (Inr (js ''abc'')) (Inl Thrown))
                    [] (state_with_input (js ''old''))))
           ClearInput)) = [] \<and>
   error
     (handleFileUpload_response
        (const_env (Inl (Error (js ''offline''))) (Inr (js ''abc'')) (Inl Thrown))
        (generateStudyNotes
           (const_env (Inl (Error (js ''offline''))) (Inr (js ''abc'')) (Inl Thrown)) (js ''abc''))
        (1, 1) (js ''abc'')
        (step (upload_state
                 (handleFileUpload_request
                    (const_env (Inl (Error (js ''offline''))) (Inr (js ''abc'')) (Inl Thrown))
                    [] (state_with_input (js ''old''))))
           ClearInput)) = Some (js ''offline'') \<and>
   js ''abc'' \<noteq> []"
proof -
  let ?e = "const_env (Inl (Error (js ''offline''))) (Inr (js ''abc'')) (Inl Thrown)"
  let ?st = "state_with_input (js ''old'')"
  have h1: "extractText ?e (currentFileType ?st) [] = Inr (js ''abc'')"
    by (simp add: extractText_def const_env_def state_with_input_def)
  have h2: "trim (js ''abc'') \<noteq> []"
    by (simp add: trim_def isWhiteSpace_def js_def)
  have h3: "generateStudyNotes ?e (js ''abc'') = Inl (Error (js ''offline''))"
    by (simp add: generateStudyNotes_def const_env_def)
  have n: "js ''abc'' \<noteq> []"
    by (simp add: js_def)
  show ?thesis
    using h1 h3 n by (simp add: request_awaiting [OF h1 h2] catch_message_def)
qed

section \<open>Selecting an entry of the history\<close>

text \<open>
  C5: a click on the entry at index \<open>i\<close> of the history sets the notes and the input text
  to the entry's notes and original text, leaves the history and the storage as they
  were, adds only the scrolling to the trace (no request, no write to storage), and a
  second click on the same entry gives the same state again, up to the second scrolling.
\<close>

theorem select_history_is_idempotent_overwrite:
  assumes "i < length (history st)"
  shows "notes (step st (SelectHistory i)) = Some (item_notes (history st ! i)) \<and>
    inputText (step st (SelectHistory i)) = originalText (history st ! i) \<and>
    history (step st (SelectHistory i)) = history st \<and>
    storage (step st (SelectHistory i)) = storage st \<and>
    trace (step st (SelectHistory i)) = trace st @ [ScrollToTop] \<and>
    step (step st (SelectHistory i)) (SelectHistory i)
      = emit ScrollToTop (step st (SelectHistory i))"
  using assms by (simp add: selectHistoryItem_def emit_def)

theorem select_history_is_idempotent_overwrite_witness:
  "0 < length (history ((state_with_input (js ''typed''))\<lparr>history := [earlier_item]\<rparr>)) \<and>
   notes (step ((state_with_input (js ''typed''))\<lparr>history := [earlier_item]\<rparr>)
            (SelectHistory 0)) = Some JNull \<and>
   inputText (step ((state_with_input (js ''typed''))\<lparr>history := [earlier_item]\<rparr>)
            (SelectHistory 0)) = js ''src'' \<and>
   trace (step ((state_with_input (js ''typed''))\<lparr>history := [earlier_item]\<rparr>)
            (SelectHistory 0)) = [ScrollToTop]"
proof -
  have h: "0 < length (history ((state_with_input (js ''typed''))\<lparr>history := [earlier_item]\<rparr>))"
    by simp
  show ?thesis
    using h select_history_is_idempotent_overwrite [OF h]
    by (simp add: earlier_item_def state_with_input_def)
qed

section \<open>The bound on the parser's recursion is never the reason of a failure\<close>

text \<open>
  Every successful parse reads at least one character, and a parse that succeeds with
  some bound succeeds with the length of the text as the bound: \<open>JSON_parse\<close> gives
  \<open>None\<close> only for a text that no bound parses up to its end.  Whether a text is
  accepted, and how much of it a value takes, does not depend on the platform's number
  for a literal.
\<close>

lemma skip_ws_length: "length (skip_ws s) \<le> length s"
  by (simp add: skip_ws_def length_dropWhile_le)

lemma skip_ws_Cons_length: "skip_ws s = c # cs \<Longrightarrow> length cs < length s"
  using skip_ws_length [of s] by simp

lemma cons_result_Some:
  "cons_result x p = Some (ys, r) \<longleftrightarrow> (\<exists>xs. p = Some (xs, r) \<and> ys = x # xs)"
  by (cases p) (auto simp: cons_result_def)

lemma parse_string_chars_shorter:
  "parse_string_chars s = Some (x, r) \<Longrightarrow> length r < length s"
proof (induction "length s" arbitrary: s x rule: less_induct)
  case less
  show ?case
  proof (cases s)
    case Nil
    with less.prems show ?thesis by simp
  next
    case (Cons c cs)
    have ih: "\<And>t y. length t < length s \<Longrightarrow> parse_string_chars t = Some (y, r) \<Longrightarrow> length r < length t"
      using less.hyps by blast
    show ?thesis
      using less.prems Cons
      by (auto simp: cons_result_Some split: if_splits list.splits option.splits dest!: ih [rotated])
  qed
qed

lemma parse_fraction_shorter: "parse_fraction s = Some r \<Longrightarrow> length r \<le> length s"
  by (auto simp: parse_fraction_def le_SucI split: list.splits if_splits
      intro: le_trans [OF length_dropWhile_le])

lemma skip_sign_length: "length (skip_sign s) \<le> length s"
  by (auto simp: skip_sign_def split: list.splits)

lemma parse_exponent_shorter: "parse_exponent s = Some r \<Longrightarrow> length r \<le> length s"
proof -
  assume a: "parse_exponent s = Some r"
  show ?thesis
  proof (cases s)
    case Nil
    with a show ?thesis by (simp add: parse_exponent_def)
  next
    case (Cons c cs)
    show ?thesis
    proof (cases "c = 0x65 \<or> c = 0x45")
      case True
      with a Cons have "r = dropWhile is_digit (skip_sign cs)"
        by (auto simp: parse_exponent_def split: if_splits)
      then have "length r \<le> length cs"
        using length_dropWhile_le [of is_digit "skip_sign cs"] skip_sign_length [of cs] by simp
      then show ?thesis using Cons by simp
    next
      case False
      with a Cons show ?thesis by (auto simp: parse_exponent_def)
    qed
  qed
qed

lemma skip_minus_length: "length (skip_minus s) \<le> length s"
  by (auto simp: skip_minus_def split: list.splits)

lemma parse_int_digits_shorter: "parse_int_digits s = Some r \<Longrightarrow> length r < length s"
proof -
  assume a: "parse_int_digits s = Some r"
  show ?thesis
  proof (cases s)
    case Nil
    with a show ?thesis by (simp add: parse_int_digits_def)
  next
    case (Cons c cs)
    have "length (dropWhile is_digit cs) \<le> length cs" by (rule length_dropWhile_le)
    with a Cons show ?thesis
      by (auto simp: parse_int_digits_def split: if_splits)
  qed
qed

lemma number_literal_shorter: "number_literal s = Some (lit, r) \<Longrightarrow> length r < length s"
proof -
  assume a: "number_literal s = Some (lit, r)"
  from a obtain s2 where p: "parse_int_digits (skip_minus s) = Some s2"
    by (auto simp: number_literal_def split: option.splits)
  from a p obtain s3 where f: "parse_fraction s2 = Some s3"
    by (auto simp: number_literal_def split: option.splits)
  from a p f have e: "parse_exponent s3 = Some r"
    by (auto simp: number_literal_def split: option.splits)
  show ?thesis
    using parse_int_digits_shorter [OF p] parse_fraction_shorter [OF f]
      parse_exponent_shorter [OF e] skip_minus_length [of s]
    by simp
qed

lemma number_literal_text: "number_literal s = Some (lit, r) \<Longrightarrow> lit = take (length s - length r) s"
  by (auto simp: number_literal_def split: option.splits)

lemma parse_number_shorter: "parse_number conv s = Some (k, r) \<Longrightarrow> length r < length s"
  by (auto simp: parse_number_def split: option.splits dest: number_literal_shorter)

lemma parse_literal_shorter: "parse_literal s = Some (v, r) \<Longrightarrow> length r < length s"
  by (auto simp: parse_literal_def js_def split: if_splits) (cases s; simp)+

lemma map_option_apfst_Some:
  "map_option (apfst f) p = Some (v, r) \<longleftrightarrow> (\<exists>x. p = Some (x, r) \<and> v = f x)"
  by (cases p) (auto simp: apfst_def map_prod_def split: prod.splits)

lemma parse_shorter_aux:
  "(\<forall>s v r. parse_value conv n s = Some (v, r) \<longrightarrow> length r < length s) \<and>
   (\<forall>s vs r. parse_elements conv n s = Some (vs, r) \<longrightarrow> length r < length s) \<and>
   (\<forall>s ps r. parse_members conv n s = Some (ps, r) \<longrightarrow> length r < length s)"
proof (induction n)
  case 0
  show ?case by simp
next
  case (Suc n)
  have ihe: "\<And>s vs r. parse_elements conv n s = Some (vs, r) \<Longrightarrow> length r < length s"
    and ihm: "\<And>s ps r. parse_members conv n s = Some (ps, r) \<Longrightarrow> length r < length s"
    using Suc.IH by blast+
  have V: "length r < length s" if asm: "parse_value conv (Suc n) s = Some (v, r)" for s v r
  proof -
    obtain c cs where sk: "skip_ws s = c # cs"
      using asm by (cases "skip_ws s") auto
    have l: "length cs < length s" using skip_ws_Cons_length [OF sk] .
    consider (obj) "c = 0x7B" | (arr) "c \<noteq> 0x7B" "c = 0x5B" | (str) "c \<noteq> 0x7B" "c \<noteq> 0x5B" "c = 0x22"
      | (num) "c \<noteq> 0x7B" "c \<noteq> 0x5B" "c \<noteq> 0x22" "c = 0x2D \<or> is_digit c"
      | (lit) "c \<noteq> 0x7B" "c \<noteq> 0x5B" "c \<noteq> 0x22" "\<not> (c = 0x2D \<or> is_digit c)"
      by blast
    then show ?thesis
    proof cases
      case obj
      then obtain d ds where sk2: "skip_ws cs = d # ds"
        using asm sk by (cases "skip_ws cs") auto
      have l2: "length (d # ds) \<le> length cs" using skip_ws_length [of cs] sk2 by simp
      show ?thesis
      proof (cases "d = 0x7D")
        case True
        then have "r = ds" using asm sk sk2 obj by simp
        then show ?thesis using l l2 by simp
      next
        case False
        then obtain ps where "parse_members conv n (d # ds) = Some (ps, r)"
          using asm sk sk2 obj by (auto simp: map_option_apfst_Some)
        then show ?thesis using ihm l l2 by fastforce
      qed
    next
      case arr
      then obtain d ds where sk2: "skip_ws cs = d # ds"
        using asm sk by (cases "skip_ws cs") auto
      have l2: "length (d # ds) \<le> length cs" using skip_ws_length [of cs] sk2 by simp
      show ?thesis
      proof (cases "d = 0x5D")
        case True
        then have "r = ds" using asm sk sk2 arr by simp
        then show ?thesis using l l2 by simp
      next
        case False
        then obtain vs where "parse_elements conv n (d # ds) = Some (vs, r)"
          using asm sk sk2 arr by (auto simp: map_option_apfst_Some)
        then show ?thesis using ihe l l2 by fastforce
      qed
    next
      case str
      then obtain x where "parse_string_chars cs = Some (x, r)"
        using asm sk by (auto simp: map_option_apfst_Some)
      then show ?thesis using parse_string_chars_shorter l by fastforce
    next
      case num
      then obtain k where "parse_number conv (c # cs) = Some (k, r)"
        using asm sk by (auto simp: map_option_apfst_Some)
      then show ?thesis using parse_number_shorter [of conv "c # cs" k r] l by simp
    next
      case lit
      then have "parse_literal (c # cs) = Some (v, r)"
        using asm sk by auto
      then show ?thesis using parse_literal_shorter [of "c # cs" v r] l by simp
    qed
  qed
  have E: "length r < length s" if asm: "parse_elements conv (Suc n) s = Some (vs, r)" for s vs r
  proof -
    obtain v r1 where pv: "parse_value conv (Suc n) s = Some (v, r1)"
      using asm by (cases "parse_value conv (Suc n) s") (auto simp del: parse_value.simps)
    obtain c cs where sk: "skip_ws r1 = c # cs"
      using asm pv by (cases "skip_ws r1") (auto simp del: parse_value.simps)
    have l: "length cs < length s"
      using V [OF pv] skip_ws_Cons_length [OF sk] by simp
    show ?thesis
      using asm pv sk l ihe
      by (fastforce simp: cons_result_Some simp del: parse_value.simps split: if_splits)
  qed
  have M: "length r < length s" if asm: "parse_members conv (Suc n) s = Some (ps, r)" for s ps r
  proof -
    obtain q qs where sk0: "skip_ws s = q # qs"
      using asm by (cases "skip_ws s") (auto simp del: parse_value.simps)
    have q: "q = 0x22" using asm sk0 by (auto simp del: parse_value.simps split: if_splits)
    obtain k r1 where ps: "parse_string_chars qs = Some (k, r1)"
      using asm sk0 q by (cases "parse_string_chars qs") (auto simp del: parse_value.simps)
    obtain colon r2 where sk1: "skip_ws r1 = colon # r2"
      using asm sk0 q ps by (cases "skip_ws r1") (auto simp del: parse_value.simps)
    have co: "colon = 0x3A"
      using asm sk0 q ps sk1 by (auto simp del: parse_value.simps split: if_splits)
    obtain v r3 where pv: "parse_value conv (Suc n) r2 = Some (v, r3)"
      using asm sk0 q ps sk1 co
      by (cases "parse_value conv (Suc n) r2") (auto simp del: parse_value.simps)
    obtain c cs where sk: "skip_ws r3 = c # cs"
      using asm sk0 q ps sk1 co pv by (cases "skip_ws r3") (auto simp del: parse_value.simps)
    have l: "length cs < length s"
      using V [OF pv] skip_ws_Cons_length [OF sk] skip_ws_Cons_length [OF sk1]
        parse_string_chars_shorter [OF ps] skip_ws_Cons_length [OF sk0]
      by simp
    show ?thesis
      using asm sk0 q ps sk1 co pv sk l ihm
      by (fastforce simp: cons_result_Some simp del: parse_value.simps split: if_splits)
  qed
  show ?case using V E M by blast
qed

lemma parse_value_shorter: "parse_value conv n s = Some (v, r) \<Longrightarrow> length r < length s"
  using parse_shorter_aux [of conv n] by blast

lemma parse_fuel_aux:
  "(\<forall>s v r m. parse_value conv n s = Some (v, r) \<longrightarrow> length s \<le> m \<longrightarrow> parse_value conv m s = Some (v, r)) \<and>
   (\<forall>s vs r m. parse_elements conv n s = Some (vs, r) \<longrightarrow> length s \<le> m \<longrightarrow>
       parse_elements conv m s = Some (vs, r)) \<and>
   (\<forall>s ps r m. parse_members conv n s = Some (ps, r) \<longrightarrow> length s \<le> m \<longrightarrow>
       parse_members conv m s = Some (ps, r))"
proof (induction n)
  case 0
  show ?case by simp
next
  case (Suc n)
  have ihe: "\<And>s vs r m. parse_elements conv n s = Some (vs, r) \<Longrightarrow> length s \<le> m \<Longrightarrow>
       parse_elements conv m s = Some (vs, r)"
    and ihm: "\<And>s ps r m. parse_members conv n s = Some (ps, r) \<Longrightarrow> length s \<le> m \<Longrightarrow>
       parse_members conv m s = Some (ps, r)"
    using Suc.IH by blast+
  have V: "parse_value conv m s = Some (v, r)"
    if asm: "parse_value conv (Suc n) s = Some (v, r)" and len: "length s \<le> m" for s v r m
  proof -
    obtain c cs where sk: "skip_ws s = c # cs"
      using asm by (cases "skip_ws s") auto
    have l: "length cs < length s" using skip_ws_Cons_length [OF sk] .
    obtain m' where m: "m = Suc m'" using l len by (cases m) auto
    consider (obj) "c = 0x7B" | (arr) "c \<noteq> 0x7B" "c = 0x5B" | (other) "c \<noteq> 0x7B" "c \<noteq> 0x5B"
      by blast
    then show ?thesis
    proof cases
      case obj
      then obtain d ds where sk2: "skip_ws cs = d # ds"
        using asm sk by (cases "skip_ws cs") auto
      have l2: "length (d # ds) \<le> m'" using skip_ws_length [of cs] sk2 l len m by simp
      show ?thesis
      proof (cases "d = 0x7D")
        case True
        then show ?thesis using asm sk sk2 obj m by simp
      next
        case False
        then obtain ps where pm: "parse_members conv n (d # ds) = Some (ps, r)" and v: "v = JObj ps"
          using asm sk sk2 obj by (auto simp: map_option_apfst_Some)
        have "parse_members conv m' (d # ds) = Some (ps, r)" using ihm [OF pm l2] .
        then show ?thesis using sk sk2 obj m False v by simp
      qed
    next
      case arr
      then obtain d ds where sk2: "skip_ws cs = d # ds"
        using asm sk by (cases "skip_ws cs") auto
      have l2: "length (d # ds) \<le> m'" using skip_ws_length [of cs] sk2 l len m by simp
      show ?thesis
      proof (cases "d = 0x5D")
        case True
        then show ?thesis using asm sk sk2 arr m by simp
      next
        case False
        then obtain vs where pe: "parse_elements conv n (d # ds) = Some (vs, r)" and v: "v = JArr vs"
          using asm sk sk2 arr by (auto simp: map_option_apfst_Some)
        have "parse_elements conv m' (d # ds) = Some (vs, r)" using ihe [OF pe l2] .
        then show ?thesis using sk sk2 arr m False v by simp
      qed
    next
      case other
      then show ?thesis using asm sk m by simp
    qed
  qed
  have E: "parse_elements conv m s = Some (vs, r)"
    if asm: "parse_elements conv (Suc n) s = Some (vs, r)" and len: "length s \<le> m" for s vs r m
  proof -
    obtain v r1 where pv: "parse_value conv (Suc n) s = Some (v, r1)"
      using asm by (cases "parse_value conv (Suc n) s") (auto simp del: parse_value.simps)
    obtain c cs where sk: "skip_ws r1 = c # cs"
      using asm pv by (cases "skip_ws r1") (auto simp del: parse_value.simps)
    have l1: "length r1 < length s" using parse_value_shorter [OF pv] .
    have l: "length cs < length r1" using skip_ws_Cons_length [OF sk] .
    obtain m' where m: "m = Suc m'" using l1 len by (cases m) auto
    have pv': "parse_value conv (Suc m') s = Some (v, r1)" using V [OF pv len] unfolding m .
    show ?thesis
    proof (cases "c = 0x2C")
      case True
      then obtain ws where pe: "parse_elements conv n cs = Some (ws, r)" and vs: "vs = v # ws"
        using asm pv sk by (auto simp: cons_result_Some simp del: parse_value.simps)
      have "length cs \<le> m'" using l l1 len m by simp
      then have "parse_elements conv m' cs = Some (ws, r)" using ihe [OF pe] by simp
      then show ?thesis
        using pv' sk True vs m by (simp add: cons_result_def del: parse_value.simps)
    next
      case False
      then show ?thesis
        using asm pv pv' sk m by (auto simp del: parse_value.simps split: if_splits)
    qed
  qed
  have M: "parse_members conv m s = Some (ps, r)"
    if asm: "parse_members conv (Suc n) s = Some (ps, r)" and len: "length s \<le> m" for s ps r m
  proof -
    obtain q qs where sk0: "skip_ws s = q # qs"
      using asm by (cases "skip_ws s") (auto simp del: parse_value.simps)
    have q: "q = 0x22" using asm sk0 by (auto simp del: parse_value.simps split: if_splits)
    obtain k r1 where ps: "parse_string_chars qs = Some (k, r1)"
      using asm sk0 q by (cases "parse_string_chars qs") (auto simp del: parse_value.simps)
    obtain colon r2 where sk1: "skip_ws r1 = colon # r2"
      using asm sk0 q ps by (cases "skip_ws r1") (auto simp del: parse_value.simps)
    have co: "colon = 0x3A"
      using asm sk0 q ps sk1 by (auto simp del: parse_value.simps split: if_splits)
    obtain v r3 where pv: "parse_value conv (Suc n) r2 = Some (v, r3)"
      using asm sk0 q ps sk1 co
      by (cases "parse_value conv (Suc n) r2") (auto simp del: parse_value.simps)
    obtain c cs where sk: "skip_ws r3 = c # cs"
      using asm sk0 q ps sk1 co pv by (cases "skip_ws r3") (auto simp del: parse_value.simps)
    have l0: "length r2 < length s"
      using skip_ws_Cons_length [OF sk1] parse_string_chars_shorter [OF ps]
        skip_ws_Cons_length [OF sk0]
      by simp
    have l: "length cs < length r2"
      using parse_value_shorter [OF pv] skip_ws_Cons_length [OF sk] by simp
    obtain m' where m: "m = Suc m'" using l0 len by (cases m) auto
    have "length r2 \<le> Suc m'" using l0 len m by simp
    then have pv': "parse_value conv (Suc m') r2 = Some (v, r3)" by (rule V [OF pv])
    show ?thesis
    proof (cases "c = 0x2C")
      case True
      then obtain qs' where pm: "parse_members conv n cs = Some (qs', r)" and pss: "ps = (k, v) # qs'"
        using asm sk0 q ps sk1 co pv sk
        by (auto simp: cons_result_Some simp del: parse_value.simps)
      have "length cs \<le> m'" using l l0 len m by simp
      then have "parse_members conv m' cs = Some (qs', r)" using ihm [OF pm] by simp
      then show ?thesis
        using sk0 q ps sk1 co pv' sk True pss m
        by (simp add: cons_result_def del: parse_value.simps)
    next
      case False
      then show ?thesis
        using asm sk0 q ps sk1 co pv pv' sk m
        by (auto simp del: parse_value.simps split: if_splits)
    qed
  qed
  show ?case using V E M by blast
qed

lemma parse_value_fuel:
  "parse_value conv n s = Some (v, r) \<Longrightarrow> parse_value conv (length s) s = Some (v, r)"
  using parse_fuel_aux [of conv n] by blast

lemma JSON_parse_None_iff:
  "JSON_parse conv s = None \<longleftrightarrow> (\<forall>n v r. parse_value conv n s = Some (v, r) \<longrightarrow> skip_ws r \<noteq> [])"
proof
  assume a: "JSON_parse conv s = None"
  show "\<forall>n v r. parse_value conv n s = Some (v, r) \<longrightarrow> skip_ws r \<noteq> []"
  proof (intro allI impI)
    fix n v r
    assume "parse_value conv n s = Some (v, r)"
    then have "parse_value conv (length s) s = Some (v, r)" by (rule parse_value_fuel)
    with a show "skip_ws r \<noteq> []" by (auto simp: JSON_parse_def split: if_splits)
  qed
next
  assume "\<forall>n v r. parse_value conv n s = Some (v, r) \<longrightarrow> skip_ws r \<noteq> []"
  then show "JSON_parse conv s = None"
    by (auto simp: JSON_parse_def split: option.splits)
qed

lemma rest_cons_result [simp]: "map_option snd (cons_result x p) = map_option snd p"
  by (cases p) (auto simp: cons_result_def)

lemma rest_apfst [simp]: "map_option snd (map_option (apfst f) p) = map_option snd p"
  by (cases p) auto

lemma rest_parse_number:
  "map_option snd (parse_number c1 s) = map_option snd (parse_number c2 s)"
  by (auto simp: parse_number_def split: option.splits)

lemma parse_rest_aux:
  "(\<forall>s. map_option snd (parse_value c1 n s) = map_option snd (parse_value c2 n s)) \<and>
   (\<forall>s. map_option snd (parse_elements c1 n s) = map_option snd (parse_elements c2 n s)) \<and>
   (\<forall>s. map_option snd (parse_members c1 n s) = map_option snd (parse_members c2 n s))"
proof (induction n)
  case 0
  show ?case by simp
next
  case (Suc n)
  have ihe: "\<And>s. map_option snd (parse_elements c1 n s) = map_option snd (parse_elements c2 n s)"
    and ihm: "\<And>s. map_option snd (parse_members c1 n s) = map_option snd (parse_members c2 n s)"
    using Suc.IH by blast+
  have V: "map_option snd (parse_value c1 (Suc n) s) = map_option snd (parse_value c2 (Suc n) s)"
    for s
    by (simp add: ihe ihm rest_parse_number [of c1 _ c2] split: list.splits)
  have V': "parse_value c2 (Suc n) s = None" if "parse_value c1 (Suc n) s = None" for s
    using V [of s] that by simp
  have V'': "\<exists>v2. parse_value c2 (Suc n) s = Some (v2, r)" if "parse_value c1 (Suc n) s = Some (v, r)"
    for s v r
    using V [of s] that by (cases "parse_value c2 (Suc n) s") auto
  have E: "map_option snd (parse_elements c1 (Suc n) s) = map_option snd (parse_elements c2 (Suc n) s)"
    for s
  proof (cases "parse_value c1 (Suc n) s")
    case None
    then show ?thesis using V' [OF None] by (simp del: parse_value.simps)
  next
    case (Some p)
    obtain v r where p: "p = (v, r)" by (cases p)
    obtain v2 where "parse_value c2 (Suc n) s = Some (v2, r)" using V'' Some p by blast
    then show ?thesis
      using Some p by (simp add: ihe del: parse_value.simps split: list.splits)
  qed
  have M: "map_option snd (parse_members c1 (Suc n) s) = map_option snd (parse_members c2 (Suc n) s)"
    for s
  proof -
    have m: "map_option snd
               (case parse_value c1 (Suc n) r2 of
                  None \<Rightarrow> None
                | Some (v, r3) \<Rightarrow>
                    (case skip_ws r3 of
                       [] \<Rightarrow> None
                     | c # cs \<Rightarrow>
                         if c = 0x7D then Some ([(k, v)], cs)
                         else if c = 0x2C then cons_result (k, v) (parse_members c1 n cs)
                         else None))
             = map_option snd
               (case parse_value c2 (Suc n) r2 of
                  None \<Rightarrow> None
                | Some (v, r3) \<Rightarrow>
                    (case skip_ws r3 of
                       [] \<Rightarrow> None
                     | c # cs \<Rightarrow>
                         if c = 0x7D then Some ([(k, v)], cs)
                         else if c = 0x2C then cons_result (k, v) (parse_members c2 n cs)
                         else None))" for r2 k
    proof (cases "parse_value c1 (Suc n) r2")
      case None
      then show ?thesis using V' [OF None] by (simp del: parse_value.simps)
    next
      case (Some p)
      obtain v r where p: "p = (v, r)" by (cases p)
      obtain v2 where "parse_value c2 (Suc n) r2 = Some (v2, r)" using V'' Some p by blast
      then show ?thesis
        using Some p by (simp add: ihm del: parse_value.simps split: list.splits)
    qed
    show ?thesis
      by (simp add: m del: parse_value.simps split: list.splits option.splits)
  qed
  show ?case using V E M by blast
qed

lemma JSON_parse_None_conv: "JSON_parse c1 s = None \<longleftrightarrow> JSON_parse c2 s = None"
proof -
  have "map_option snd (parse_value c1 (length s) s) = map_option snd (parse_value c2 (length s) s)"
    using parse_rest_aux [of c1 "length s" c2] by blast
  then show ?thesis
    by (cases "parse_value c1 (length s) s"; cases "parse_value c2 (length s) s")
       (auto simp: JSON_parse_def)
qed

section \<open>Sample texts\<close>

lemma JSON_parse_examples:
  "JSON_parse conv (js '' [1, -2.5e3, true, null] '')
     = Some (JArr [JNum (conv (js ''1'')), JNum (conv (js ''-2.5e3'')), JBool True, JNull])"
  "JSON_parse conv ([0x7B, 0x22] @ js ''k'' @ [0x22] @ js '' : ['' @
               [0x22] @ js ''a'' @ [0x5C] @ js ''u0041'' @ [0x5C] @ js ''n'' @ [0x22] @ js ''], '' @
               [0x22, 0x22] @ js '':{}}'')
     = Some (JObj [(js ''k'', JArr [JStr [0x61, 0x41, 0x0A]]), ([], JObj [])])"
  "JSON_parse conv [] = None"
  "JSON_parse conv (js ''[1,]'') = None"
  "JSON_parse conv (js ''01'') = None"
  "JSON_parse conv (js ''1.'') = None"
  "JSON_parse conv (js ''-'') = None"
  "JSON_parse conv (js ''{a:1}'') = None"
  "JSON_parse conv (js ''undefined'') = None"
  "JSON_parse conv (js ''[1] x'') = None"
  "JSON_parse conv [0x22, 0x0A, 0x22] = None"
  by (simp_all add: JSON_parse_def js_def skip_ws_def is_json_ws_def is_digit_def
      parse_literal_def parse_number_def number_literal_def skip_minus_def skip_sign_def
      parse_int_digits_def parse_fraction_def parse_exponent_def hex4_def hex_val_def
      unescape_def cons_result_def)

lemma JSON_stringify_example:
  "JSON_stringify ser (history_toJSON
     [\<lparr>item_id = int_toString 1700000000000, timestamp = t,
       originalText = [0x61, 0x22, 0x0A, 0x01, 0xD800],
       item_notes = JArr [JNull, JBool False]\<rparr>])
   = [0x5B, 0x7B, 0x22] @ js ''id'' @ [0x22, 0x3A, 0x22] @ js ''1700000000000'' @
     [0x22, 0x2C, 0x22] @ js ''timestamp'' @ [0x22, 0x3A] @ ser t @
     [0x2C, 0x22] @ js ''originalText'' @ [0x22, 0x3A, 0x22, 0x61, 0x5C, 0x22, 0x5C] @ js ''n'' @
     [0x5C] @ js ''u0001'' @ [0x5C] @ js ''ud800'' @ [0x22, 0x2C, 0x22] @ js ''notes'' @
     [0x22, 0x3A] @ js ''[null,false]}]''"
  by (simp add: history_toJSON_def item_toJSON_def QuoteJSONString_def js_def
      int_toString_def nat_toString.simps digit_char_def unicode_escape_def hex_char_def
      is_high_surrogate_def is_low_surrogate_def)

lemma conforms_StudyNotes_example:
  "conforms_StudyNotes
     (JObj [(js ''topicOverview'', JStr (js ''Photosynthesis'')),
            (js ''detailedExplanation'', JStr (js ''Plants turn light into sugar.'')),
            (js ''keyPoints'', JArr [JStr (js ''chlorophyll'')]),
            (js ''examples'', JArr []),
            (js ''commonMistakes'', JArr []),
            (js ''examTips'', JArr [JStr (js ''name the inputs'')]),
            (js ''studyQuestions'',
               JObj [(js ''mcqs'',
                        JArr [JObj [(js ''question'', JStr (js ''Where?'')),
                                    (js ''options'', JArr [JStr (js ''leaf''), JStr (js ''root'')]),
                                    (js ''answer'', JStr (js ''leaf''))]]),
                     (js ''shortAnswers'',
                        JArr [JObj [(js ''question'', JStr (js ''Why?'')),
                                    (js ''answer'', JStr (js ''energy''))]]),
                     (js ''examStyle'',
                        JObj [(js ''question'', JStr (js ''Explain.'')),
                              (js ''modelAnswer'', JStr (js ''Light reactions.''))])])])"
  by (simp add: has_string_def has_string_array_def get_prop_def js_def)

section \<open>The history store\<close>

lemma handleSubmit_success:
  assumes "trim (inputText st) \<noteq> []" and "generateStudyNotes e (inputText st) = Inr g"
  shows "history (handleSubmit e now st) = take 10 (newItem e now (inputText st) g # history st)"
    and "notes (handleSubmit e now st) = Some g"
  using assms by (simp_all add: handleSubmit_def Let_def recordSuccess_def)

lemma handleSubmit_failure:
  assumes "generateStudyNotes e (inputText st) = Inl err"
  shows "history (handleSubmit e now st) = history st"
    and "storage (handleSubmit e now st) = storage st"
  using assms by (simp_all add: handleSubmit_def Let_def)

lemma handleFileUpload_success:
  assumes "extractText e (currentFileType st) f = Inr x" and "trim x \<noteq> []"
    and "generateStudyNotes e x = Inr g"
  shows "history (handleFileUpload e (Some f) now st) = take 10 (newItem e now x g # history st)"
    and "notes (handleFileUpload e (Some f) now st) = Some g"
    and "storage (handleFileUpload e (Some f) now st) HISTORY_KEY
           = Some (JSON_stringify (NumberToJSON e)
                     (history_toJSON (history (handleFileUpload e (Some f) now st))))"
  by (simp_all add: handleFileUpload_def request_awaiting [OF assms(1) assms(2)] assms(3)
      handleFileUpload_response_def recordSuccess_def)

lemma handleFileUpload_failure:
  assumes "extractText e (currentFileType st) f = Inr x"
    and "generateStudyNotes e x = Inl err"
  shows "history (handleFileUpload e (Some f) now st) = history st"
    and "storage (handleFileUpload e (Some f) now st) = storage st"
proof -
  have "history (handleFileUpload e (Some f) now st) = history st \<and>
        storage (handleFileUpload e (Some f) now st) = storage st"
  proof (cases "trim x = []")
    case True
    show ?thesis by (simp add: handleFileUpload_def request_blank [OF assms(1) True])
  next
    case False
    show ?thesis
      by (simp add: handleFileUpload_def request_awaiting [OF assms(1) False] assms(2))
  qed
  then show "history (handleFileUpload e (Some f) now st) = history st"
    and "storage (handleFileUpload e (Some f) now st) = storage st"
    by simp_all
qed

lemma handleSubmit_length:
  "length (history (handleSubmit e now st)) \<le> max 10 (length (history st))"
  by (cases "generateStudyNotes e (inputText st)")
     (auto simp: handleSubmit_def Let_def recordSuccess_def)

lemma handleFileUpload_length:
  "length (history (handleFileUpload e fo now st)) \<le> max 10 (length (history st))"
proof (cases fo)
  case None
  then show ?thesis by (simp add: handleFileUpload_def)
next
  case (Some f)
  show ?thesis
  proof (cases "extractText e (currentFileType st) f")
    case (Inl err)
    then show ?thesis
      using Some by (simp add: handleFileUpload_def request_failed_extraction [OF Inl])
  next
    case (Inr x)
    show ?thesis
    proof (cases "trim x = []")
      case True
      then show ?thesis
        using Some by (simp add: handleFileUpload_def request_blank [OF Inr])
    next
      case False
      then show ?thesis
        using Some Inr
        by (cases "generateStudyNotes e x")
           (auto simp: handleFileUpload_def request_awaiting [OF Inr False])
    qed
  qed
qed

lemma step_length: "length (history (step st ev)) \<le> max 10 (length (history st))"
  by (cases ev)
     (simp_all add: handleSubmit_length handleFileUpload_length triggerFilePicker_def
        selectHistoryItem_def)

lemma run_length: "length (history (run st evs)) \<le> max 10 (length (history st))"
proof (induction evs arbitrary: st)
  case Nil
  then show ?case by (simp add: run_def)
next
  case (Cons ev evs)
  have "length (history (run (step st ev) evs)) \<le> max 10 (length (history (step st ev)))"
    by (rule Cons.IH)
  also have "\<dots> \<le> max 10 (length (history st))"
    using step_length [of st ev] by simp
  finally show ?case by (simp add: run_def)
qed

text \<open>
  C1: a successful generation, from typed text or from an uploaded file, makes the
  history the first ten elements of the new item put in front of the old history: the
  new item is first, the old items follow in their order, at most nine of them, the
  length is at most ten, and the new history is what local storage holds.  After any
  sequence of events the history is no longer than ten, or than it was at the start.
\<close>

theorem history_prepend_truncate:
  "(trim (inputText st) \<noteq> [] \<and> generateStudyNotes e (inputText st) = Inr g \<longrightarrow>
      history (handleSubmit e now st) = take 10 (newItem e now (inputText st) g # history st) \<and>
      history (handleSubmit e now st) = newItem e now (inputText st) g # take 9 (history st) \<and>
      length (history (handleSubmit e now st)) \<le> 10 \<and>
      storage (handleSubmit e now st) HISTORY_KEY
        = Some (JSON_stringify (NumberToJSON e) (history_toJSON (history (handleSubmit e now st))))) \<and>
   (extractText e (currentFileType st) f = Inr x \<and> trim x \<noteq> [] \<and>
    generateStudyNotes e x = Inr g \<longrightarrow>
      history (handleFileUpload e (Some f) now st) = take 10 (newItem e now x g # history st) \<and>
      history (handleFileUpload e (Some f) now st) = newItem e now x g # take 9 (history st) \<and>
      length (history (handleFileUpload e (Some f) now st)) \<le> 10 \<and>
      storage (handleFileUpload e (Some f) now st) HISTORY_KEY
        = Some (JSON_stringify (NumberToJSON e) (history_toJSON (history (handleFileUpload e (Some f) now st))))) \<and>
   length (history (run st evs)) \<le> max 10 (length (history st))"
proof -
  have t: "\<And>it h. take 10 (it # h) = it # take 9 (h :: NoteHistoryItem list)"
    by (simp add: take_Cons')
  have a: "trim (inputText st) \<noteq> [] \<and> generateStudyNotes e (inputText st) = Inr g \<longrightarrow>
      history (handleSubmit e now st) = take 10 (newItem e now (inputText st) g # history st) \<and>
      storage (handleSubmit e now st) HISTORY_KEY
        = Some (JSON_stringify (NumberToJSON e) (history_toJSON (history (handleSubmit e now st))))"
    by (simp add: handleSubmit_def Let_def recordSuccess_def)
  have b: "extractText e (currentFileType st) f = Inr x \<and> trim x \<noteq> [] \<and>
    generateStudyNotes e x = Inr g \<longrightarrow>
      history (handleFileUpload e (Some f) now st) = take 10 (newItem e now x g # history st) \<and>
      storage (handleFileUpload e (Some f) now st) HISTORY_KEY
        = Some (JSON_stringify (NumberToJSON e) (history_toJSON (history (handleFileUpload e (Some f) now st))))"
    using handleFileUpload_success [of e st f x g now] by simp
  show ?thesis
    using a b run_length [of st evs] by (simp add: t)
qed

theorem history_prepend_truncate_witness:
  "trim (inputText ((state_with_input (js ''abc''))\<lparr>history := replicate 10 (earlier_item)\<rparr>)) \<noteq> [] \<and>
   generateStudyNotes (const_env (Inr (Some (js ''{}''))) (Inr (js ''doc'')) (Inl Thrown))
     (inputText ((state_with_input (js ''abc''))\<lparr>history := replicate 10 (earlier_item)\<rparr>))
     = Inr (JObj []) \<and>
   history (handleSubmit (const_env (Inr (Some (js ''{}''))) (Inr (js ''doc'')) (Inl Thrown)) (1, 2)
              ((state_with_input (js ''abc''))\<lparr>history := replicate 10 (earlier_item)\<rparr>))
     = newItem (const_env (Inr (Some (js ''{}''))) (Inr (js ''doc'')) (Inl Thrown)) (1, 2) (js ''abc'') (JObj []) # replicate 9 (earlier_item) \<and>
   extractText (const_env (Inr (Some (js ''{}''))) (Inr (js ''doc'')) (Inl Thrown))
     (currentFileType ((state_with_input (js ''abc''))\<lparr>history := replicate 10 (earlier_item)\<rparr>)) []
     = Inr (js ''doc'') \<and>
   trim (js ''doc'') \<noteq> [] \<and>
   generateStudyNotes (const_env (Inr (Some (js ''{}''))) (Inr (js ''doc'')) (Inl Thrown)) (js ''doc'')
     = Inr (JObj []) \<and>
   history (handleFileUpload (const_env (Inr (Some (js ''{}''))) (Inr (js ''doc'')) (Inl Thrown))
              (Some []) (1, 2)
              ((state_with_input (js ''abc''))\<lparr>history := replicate 10 (earlier_item)\<rparr>))
     = newItem (const_env (Inr (Some (js ''{}''))) (Inr (js ''doc'')) (Inl Thrown)) (1, 2) (js ''doc'') (JObj []) # replicate 9 (earlier_item)"
proof -
  let ?e = "const_env (Inr (Some (js ''{}''))) (Inr (js ''doc'')) (Inl Thrown)"
  let ?st = "(state_with_input (js ''abc''))\<lparr>history := replicate 10 (earlier_item)\<rparr>"
  have i: "inputText ?st = js ''abc''" and c: "currentFileType ?st = None"
    by (simp_all add: state_with_input_def)
  have h1: "trim (inputText ?st) \<noteq> []"
    by (simp add: state_with_input_def trim_def isWhiteSpace_def js_def)
  have g: "\<And>content. generateStudyNotes ?e content = Inr (JObj [])"
    by (simp add: generateStudyNotes_def const_env_def ToString_def JSON_parse_def js_def
        skip_ws_def is_json_ws_def)
  have h3: "extractText ?e (currentFileType ?st) [] = Inr (js ''doc'')"
    by (simp add: c extractText_def const_env_def)
  have h4: "trim (js ''doc'') \<noteq> []"
    by (simp add: trim_def isWhiteSpace_def js_def)
  have r: "take 9 (replicate 10 (earlier_item)) = replicate 9 (earlier_item)"
    by simp
  have hs: "history ?st = replicate 10 (earlier_item)"
    by simp
  show ?thesis
    using h1 g h3 h4
      history_prepend_truncate
        [where st = ?st and e = ?e and g = "JObj []" and now = "(1, 2)" and f = "[]"
           and x = "js ''doc''" and evs = "[]"]
    by (simp only: i c hs r) simp
qed

section \<open>Identifiers of history entries\<close>

text \<open>
  C4: the id of an entry is the decimal text of the clock reading taken when the entry is
  built.  Two successful generations whose readings are both 1000 give a history with
  two entries of id "1000": the ids of distinct entries are not always distinct.
\<close>

theorem equal_clock_readings_give_equal_ids:
  "map item_id (history (run (state_with_input (js ''a''))
     [Submit (const_env (Inr (Some (js ''{}''))) (Inl Thrown) (Inl Thrown)) (1000, 1000),
      Submit (const_env (Inr (Some (js ''[]''))) (Inl Thrown) (Inl Thrown)) (1000, 1002)]))
   = [js ''1000'', js ''1000''] \<and>
   map item_notes (history (run (state_with_input (js ''a''))
     [Submit (const_env (Inr (Some (js ''{}''))) (Inl Thrown) (Inl Thrown)) (1000, 1000),
      Submit (const_env (Inr (Some (js ''[]''))) (Inl Thrown) (Inl Thrown)) (1000, 1002)]))
   = [JArr [], JObj []]"
  by code_simp

section \<open>The generation client's failure on a malformed response\<close>

text \<open>
  C2, as the code has it: when the service has answered, \<open>generateStudyNotes\<close> fails
  with the message about shorter content or text quality exactly when the text of the
  response is not JSON, and returns whatever value the text denotes otherwise, with no
  check of its shape.  When \<open>generateStudyNotes\<close> fails, on the typed path or on the
  upload path, the history and local storage are the ones before.
\<close>

theorem response_malformed_iff_not_json:
  "(generateContent e content = Inr response_text \<longrightarrow>
      (generateStudyNotes e content = Inl (Error malformed_message))
        = (JSON_parse (StringToNumber e) (ToString response_text) = None) \<and>
      (\<forall>v. JSON_parse (StringToNumber e) (ToString response_text) = Some v \<longrightarrow>
           generateStudyNotes e content = Inr v)) \<and>
   (generateStudyNotes e (inputText st) = Inl err \<longrightarrow>
      history (handleSubmit e now st) = history st \<and>
      storage (handleSubmit e now st) = storage st) \<and>
   (extractText e (currentFileType st) f = Inr x \<and> generateStudyNotes e x = Inl err \<longrightarrow>
      history (handleFileUpload e (Some f) now st) = history st \<and>
      storage (handleFileUpload e (Some f) now st) = storage st)"
proof -
  have a: "generateContent e content = Inr response_text \<longrightarrow>
      (generateStudyNotes e content = Inl (Error malformed_message))
        = (JSON_parse (StringToNumber e) (ToString response_text) = None) \<and>
      (\<forall>v. JSON_parse (StringToNumber e) (ToString response_text) = Some v \<longrightarrow>
           generateStudyNotes e content = Inr v)"
    by (cases "JSON_parse (StringToNumber e) (ToString response_text)") (simp_all add: generateStudyNotes_def)
  show ?thesis
    using a handleSubmit_failure [of e st err now] handleFileUpload_failure [of e st f x err now]
    by blast
qed

theorem response_malformed_iff_not_json_witness:
  "generateContent (const_env (Inr (Some (js ''not json''))) (Inr (js ''doc'')) (Inl Thrown)) (js ''abc'')
     = Inr (Some (js ''not json'')) \<and>
   JSON_parse (StringToNumber (const_env (Inr (Some (js ''not json''))) (Inr (js ''doc'')) (Inl Thrown)))
     (ToString (Some (js ''not json''))) = None \<and>
   generateStudyNotes (const_env (Inr (Some (js ''not json''))) (Inr (js ''doc'')) (Inl Thrown))
     (inputText (state_with_input (js ''abc''))) = Inl (Error malformed_message) \<and>
   history (handleSubmit (const_env (Inr (Some (js ''not json''))) (Inr (js ''doc'')) (Inl Thrown))
              (1, 2) (state_with_input (js ''abc''))) = [] \<and>
   extractText (const_env (Inr (Some (js ''not json''))) (Inr (js ''doc'')) (Inl Thrown))
     (currentFileType (state_with_input (js ''abc''))) [] = Inr (js ''doc'') \<and>
   generateStudyNotes (const_env (Inr (Some (js ''not json''))) (Inr (js ''doc'')) (Inl Thrown))
     (js ''doc'') = Inl (Error malformed_message) \<and>
   history (handleFileUpload (const_env (Inr (Some (js ''not json''))) (Inr (js ''doc'')) (Inl Thrown))
              (Some []) (1, 2) (state_with_input (js ''abc''))) = []"
proof -
  let ?e = "const_env (Inr (Some (js ''not json''))) (Inr (js ''doc'')) (Inl Thrown)"
  let ?st = "state_with_input (js ''abc'')"
  have h0: "generateContent ?e (js ''abc'') = Inr (Some (js ''not json''))"
    by (simp add: const_env_def)
  have p: "\<And>conv. JSON_parse conv (ToString (Some (js ''not json''))) = None"
    by (simp add: ToString_def JSON_parse_def js_def skip_ws_def is_json_ws_def is_digit_def
        parse_literal_def)
  have g: "\<And>content. generateStudyNotes ?e content = Inl (Error malformed_message)"
    by (simp add: p generateStudyNotes_def const_env_def)
  have h3: "extractText ?e (currentFileType ?st) [] = Inr (js ''doc'')"
    by (simp add: extractText_def const_env_def state_with_input_def)
  have hs: "history ?st = []"
    by (simp add: state_with_input_def)
  show ?thesis
    using h0 p [of "StringToNumber ?e"] g h3 hs
      response_malformed_iff_not_json
        [where e = ?e and content = "js ''abc''" and response_text = "Some (js ''not json'')"
           and st = ?st and err = "Error malformed_message" and now = "(1, 2)" and f = "[]"
           and x = "js ''doc''"]
    by simp
qed

text \<open>
  C2, as the claim has it, fails on the response \<open>{}\<close>: the text is JSON, the empty
  object has none of the fields of \<open>StudyNotes\<close>, and \<open>generateStudyNotes\<close> returns it
  without an error, so the submit puts an entry with these notes into the history.
\<close>

theorem shape_mismatch_is_not_rejected:
  "JSON_parse (StringToNumber (const_env (Inr (Some (js ''{}''))) (Inl Thrown) (Inl Thrown)))
     (ToString (Some (js ''{}''))) = Some (JObj []) \<and>
   \<not> conforms_StudyNotes (JObj []) \<and>
   generateStudyNotes (const_env (Inr (Some (js ''{}''))) (Inl Thrown) (Inl Thrown)) (js ''abc'')
     = Inr (JObj []) \<and>
   history (handleSubmit (const_env (Inr (Some (js ''{}''))) (Inl Thrown) (Inl Thrown)) (1, 2)
              (state_with_input (js ''abc'')))
     = [newItem (const_env (Inr (Some (js ''{}''))) (Inl Thrown) (Inl Thrown)) (1, 2) (js ''abc'') (JObj [])]"
proof -
  let ?e = "const_env (Inr (Some (js ''{}''))) (Inl Thrown) (Inl Thrown)"
  have p: "\<And>conv. JSON_parse conv (ToString (Some (js ''{}''))) = Some (JObj [])"
    by (simp add: ToString_def JSON_parse_def js_def skip_ws_def is_json_ws_def)
  have g: "generateStudyNotes ?e (js ''abc'') = Inr (JObj [])"
    by (simp add: p generateStudyNotes_def const_env_def)
  have t: "trim (js ''abc'') \<noteq> []"
    by (simp add: trim_def isWhiteSpace_def js_def)
  have "history (handleSubmit ?e (1, 2) (state_with_input (js ''abc'')))
        = [newItem (const_env (Inr (Some (js ''{}''))) (Inl Thrown) (Inl Thrown)) (1, 2) (js ''abc'') (JObj [])]"
    using g t by (simp add: handleSubmit_def Let_def recordSuccess_def state_with_input_def)
  then show ?thesis
    using p [of "StringToNumber ?e"] g by (simp add: has_string_def get_prop_def)
qed

section \<open>Loading the history\<close>

text \<open>
  C7: when local storage has no saved history, or a saved text that is not JSON, the
  application mounts with the empty history, no error message, no notes and an empty
  input text, and writes the empty history back.  The trace has a console error exactly
  when a saved text that is not empty failed to parse; nothing is logged when there is no
  saved history or when the saved text is empty, which the code does not parse.
\<close>

theorem unreadable_history_loads_empty:
  assumes "ls HISTORY_KEY = None \<or>
           (\<exists>s. ls HISTORY_KEY = Some s \<and> JSON_parse (StringToNumber e) s = None)"
  shows "\<exists>st. mount e ls = Inr st \<and> history st = [] \<and> error st = None \<and> notes st = None \<and>
           inputText st = [] \<and> loading st = False \<and>
           storage st = ls(HISTORY_KEY \<mapsto> js ''[]'') \<and>
           trace st = (if ls HISTORY_KEY = None \<or> ls HISTORY_KEY = Some [] then []
                       else [ConsoleError])
                      @ [StorageSet HISTORY_KEY (js ''[]'')]"
  using assms
  by (auto simp: mount_def history_toJSON_def js_def)

theorem unreadable_history_loads_empty_witness:
  "JSON_parse (StringToNumber (const_env (Inl Thrown) (Inl Thrown) (Inl Thrown))) (js ''{broken'')
     = None \<and>
   (\<exists>st. mount (const_env (Inl Thrown) (Inl Thrown) (Inl Thrown))
            (Map.empty(HISTORY_KEY \<mapsto> js ''{broken'')) = Inr st \<and>
         history st = [] \<and> error st = None \<and>
         trace st = [ConsoleError, StorageSet HISTORY_KEY (js ''[]'')]) \<and>
   (\<exists>st. mount (const_env (Inl Thrown) (Inl Thrown) (Inl Thrown)) Map.empty = Inr st \<and>
         history st = [] \<and> error st = None \<and>
         trace st = [StorageSet HISTORY_KEY (js ''[]'')])"
proof -
  let ?e = "const_env (Inl Thrown) (Inl Thrown) (Inl Thrown)"
  let ?ls = "Map.empty(HISTORY_KEY \<mapsto> js ''{broken'')"
  have p: "JSON_parse (StringToNumber ?e) (js ''{broken'') = None"
    by (simp add: JSON_parse_def js_def skip_ws_def is_json_ws_def)
  have h: "?ls HISTORY_KEY = None \<or>
           (\<exists>s. ?ls HISTORY_KEY = Some s \<and> JSON_parse (StringToNumber ?e) s = None)"
    using p by simp
  have ne: "js ''{broken'' \<noteq> []"
    by (simp add: js_def)
  have a: "\<exists>st. mount ?e ?ls = Inr st \<and> history st = [] \<and> error st = None \<and>
         trace st = [ConsoleError, StorageSet HISTORY_KEY (js ''[]'')]"
    using h ne unreadable_history_loads_empty [of ?ls ?e] by auto
  have b: "\<exists>st. mount ?e Map.empty = Inr st \<and> history st = [] \<and> error st = None \<and>
         trace st = [StorageSet HISTORY_KEY (js ''[]'')]"
    using unreadable_history_loads_empty [of Map.empty ?e] by auto
  show ?thesis
    using p a b by blast
qed

section \<open>Text extraction from PDF documents\<close>

lemma pdf_loop_all_pages:
  assumes "\<forall>j. i \<le> j \<and> j \<le> numPages doc \<longrightarrow> getPage doc j = Inr (page j)"
  shows "pdf_loop doc i acc
         = Inr (acc @ concat (map (\<lambda>j. join [0x20] (page j) @ [0x0A]) [i..<Suc (numPages doc)]))"
  using assms
proof (induction doc i acc rule: pdf_loop.induct)
  case (1 doc i fullText)
  show ?case
  proof (cases "i \<le> numPages doc")
    case True
    have g: "getPage doc i = Inr (page i)" using "1.prems" True by simp
    have "pdf_loop doc (i + 1) (fullText @ join [0x20] (page i) @ [0x0A])
          = Inr ((fullText @ join [0x20] (page i) @ [0x0A])
                 @ concat (map (\<lambda>j. join [0x20] (page j) @ [0x0A]) [i + 1..<Suc (numPages doc)]))"
      using "1.IH" [OF True g] "1.prems" by simp
    moreover have "[i..<Suc (numPages doc)] = i # [i + 1..<Suc (numPages doc)]"
      using True by (simp add: upt_conv_Cons)
    ultimately show ?thesis
      using True g by (subst pdf_loop.simps) simp
  next
    case False
    then show ?thesis by (subst pdf_loop.simps) simp
  qed
qed

lemma concat_lines:
  "concat (map (\<lambda>p. f p @ [nl]) ps) = join [nl] (map f ps) @ (if ps = [] then [] else [nl])"
proof (induction ps)
  case Nil
  then show ?case by simp
next
  case (Cons p qs)
  then show ?case by (cases qs) simp_all
qed

text \<open>
  C8, as the code has it: when every page of the document loads, the extracted text is
  the pages' texts in page order, the items of a page joined by single spaces, with a
  newline between consecutive pages and one more newline after the last page; a document
  without pages gives the empty text.
\<close>

theorem pdf_text_newline_after_each_page:
  assumes "getDocument e f = Inr doc"
    and "\<forall>i. 1 \<le> i \<and> i \<le> numPages doc \<longrightarrow> getPage doc i = Inr (page i)"
  shows "extractText e (Some pdf) f
         = Inr (spec_pdf_text (map page [1..<Suc (numPages doc)])
                @ (if numPages doc = 0 then [] else [0x0A]))"
proof -
  have "pdf_loop doc 1 []
        = Inr ([] @ concat (map (\<lambda>j. join [0x20] (page j) @ [0x0A]) [1..<Suc (numPages doc)]))"
    using assms(2) by (intro pdf_loop_all_pages) simp
  also have "concat (map (\<lambda>j. join [0x20] (page j) @ [0x0A]) [1..<Suc (numPages doc)])
        = concat (map (\<lambda>p. join [0x20] p @ [0x0A]) (map page [1..<Suc (numPages doc)]))"
    by (simp add: comp_def)
  also have "\<dots> = spec_pdf_text (map page [1..<Suc (numPages doc)])
                @ (if numPages doc = 0 then [] else [0x0A])"
    unfolding spec_pdf_text_def concat_lines by simp
  finally show ?thesis
    using assms(1) by (simp add: extractText_def)
qed

theorem pdf_text_newline_after_each_page_witness:
  "getDocument (const_env (Inl Thrown) (Inl Thrown)
                  (Inr (pdf_of_pages [ [js ''a'', js ''b''], [], [js ''c''] ]))) []
     = Inr (pdf_of_pages [ [js ''a'', js ''b''], [], [js ''c''] ]) \<and>
   extractText (const_env (Inl Thrown) (Inl Thrown)
                  (Inr (pdf_of_pages [ [js ''a'', js ''b''], [], [js ''c''] ]))) (Some pdf) []
     = Inr (js ''a b'' @ [0x0A] @ [0x0A] @ js ''c'' @ [0x0A])"
proof -
  let ?pages = "[ [js ''a'', js ''b''], [], [js ''c''] ]"
  let ?doc = "pdf_of_pages ?pages"
  let ?e = "const_env (Inl Thrown) (Inl Thrown) (Inr ?doc)"
  have h1: "getDocument ?e [] = Inr ?doc"
    by (simp add: const_env_def)
  have h2: "\<forall>i. 1 \<le> i \<and> i \<le> numPages ?doc \<longrightarrow> getPage ?doc i = Inr (?pages ! (i - 1))"
    by (simp add: pdf_of_pages_def)
  have n: "numPages ?doc = 3"
    by (simp add: pdf_of_pages_def)
  have u: "[1..<Suc 3] = [1, 2, 3]"
    by (simp add: upt_conv_Cons)
  show ?thesis
    using h1 pdf_text_newline_after_each_page [OF h1 h2]
    by (simp only: n u) (simp add: spec_pdf_text_def js_def)
qed

text \<open>
  C8, as the claim has it, fails on a document of one page with the items "a" and "b":
  the specification's text is "a b", the extracted text is "a b" and a newline.
\<close>

theorem pdf_text_has_trailing_newline:
  "extractText (const_env (Inl Thrown) (Inl Thrown) (Inr (pdf_of_pages [ [js ''a'', js ''b''] ])))
     (Some pdf) [] = Inr (js ''a b'' @ [0x0A]) \<and>
   spec_pdf_text [ [js ''a'', js ''b''] ] = js ''a b'' \<and>
   extractText (const_env (Inl Thrown) (Inl Thrown) (Inr (pdf_of_pages [ [js ''a'', js ''b''] ])))
     (Some pdf) [] \<noteq> Inr (spec_pdf_text [ [js ''a'', js ''b''] ])"
proof -
  have a: "extractText (const_env (Inl Thrown) (Inl Thrown) (Inr (pdf_of_pages [ [js ''a'', js ''b''] ])))
     (Some pdf) [] = Inr (js ''a b'' @ [0x0A])"
    by (simp add: extractText_def const_env_def pdf_of_pages_def pdf_loop.simps js_def)
  have b: "spec_pdf_text [ [js ''a'', js ''b''] ] = js ''a b''"
    by (simp add: spec_pdf_text_def js_def)
  show ?thesis
    by (simp only: a b) (simp add: js_def)
qed

end
